theory Spec2Isabelle
  imports Main "HOL-Library.Word"
begin

unbundle bit_operations_syntax

section \<open>Data model of the simulator\<close>

text \<open>
  The embedding follows the second (latest) \<open>ARM64Simulator\<close> class of
  \<open>src/unnamed/part_000\<close> and the \<open>ARM64Parser\<close> class of \<open>src/simulator_parser.js\<close>.
  JavaScript \<open>BigInt\<close> values are unbounded, so registers, addresses and immediates are
  \<open>int\<close>; \<open>&\<close>, \<open>|\<close>, \<open>~\<close>, \<open><<\<close> and \<open>>>\<close> on them are the two's-complement
  operations \<open>AND\<close>, \<open>OR\<close>, \<open>NOT\<close>, \<open>push_bit\<close> and \<open>drop_bit\<close> of \<open>int\<close>.
  The sets \<open>changedRegisters\<close> and \<open>changedMemory\<close> only feed the display and are left
  out, as are the fields that none of the operations below reads (the heap pointer, the
  used-size table, the running flags).
\<close>

text \<open>A register operand as \<open>parseRegister\<close> returns it: the strings \<open>'sp'\<close>, \<open>'lr'\<close>,
  \<open>'pc'\<close>, or an object of type \<open>'x'\<close> or \<open>'w'\<close> with its number.\<close>

datatype reg = SP | LR | PC | X nat | W nat

datatype error =
    ZeroPageAccess
  | OutOfBounds
  | NotInAnyRegion
  | CrossesRegionBoundary
  | ReadOnlyWrite
  | StackHeapCollision
  | MovNotEncodable
  | InvalidInstruction
  | StackOperandNotMultipleOf16
  | StackPointerMisaligned
  | StackOverflow
  | LabelNotFound
  | DuplicateLabel
  | DirectiveError
  | OperandSyntaxError

record region =
  key :: string
  rstart :: int
  rend :: int
  rname :: string
  readonly :: bool

text \<open>\<open>this.memoryLayout\<close>, in the insertion order that \<open>Object.entries\<close> walks.\<close>

definition memoryLayout :: "region list" where
  "memoryLayout =
    [\<lparr>key = ''rodata'', rstart = 0x00100000, rend = 0x001FFFFF, rname = ''Rodata'', readonly = True\<rparr>,
     \<lparr>key = ''data'', rstart = 0x00200000, rend = 0x002FFFFF, rname = ''Data'', readonly = False\<rparr>,
     \<lparr>key = ''bss'', rstart = 0x00300000, rend = 0x003FFFFF, rname = ''BSS'', readonly = False\<rparr>,
     \<lparr>key = ''heap'', rstart = 0x00400000, rend = 0x07FEFFFF, rname = ''Heap'', readonly = False\<rparr>,
     \<lparr>key = ''stack'', rstart = 0x07FF0000, rend = 0x07FFFFFF, rname = ''Stack'', readonly = False\<rparr>]"

definition heapRegion :: region where
  "heapRegion = memoryLayout ! 3"

definition stackRegion :: region where
  "stackRegion = memoryLayout ! 4"

text \<open>A stack frame \<open>{id, sp, size, top}\<close>. Its numbers are JavaScript Numbers made by
  \<open>Number(bigint)\<close>; that conversion is exact below \<open>2^53\<close>, the range modelled here.\<close>

record frame =
  fid :: nat
  fsp :: int
  fsize :: int
  ftop :: int

text \<open>The operand record that \<open>parseInstruction\<close> builds; a field the parser did not set
  (or set to \<open>null\<close>) is \<open>None\<close>.\<close>

datatype offsetType = Immediate | Register | Scaled

record parsed =
  opcode :: string
  pline :: string
  dest :: "reg option"
  src1 :: "reg option"
  src2 :: "reg option"
  src :: "reg option"
  immediate :: "int option"
  plabel :: "string option"
  labelOp :: "string option"
  base :: "reg option"
  offsetReg :: "reg option"
  pshift :: "nat option"
  poffset :: "int option"
  poffsetType :: "offsetType option"

definition noOperands :: "string \<Rightarrow> string \<Rightarrow> parsed" where
  "noOperands opc ln =
    \<lparr>opcode = opc, pline = ln, dest = None, src1 = None, src2 = None, src = None, immediate = None,
     plabel = None, labelOp = None, base = None, offsetReg = None, pshift = None,
     poffset = None, poffsetType = None\<rparr>"

record instruction =
  original :: string
  address :: int
  iparsed :: parsed

record symbol =
  saddress :: int
  ssection :: string
  isGlobal :: bool

record sim =
  xregs :: "nat \<Rightarrow> int"
  sp :: int
  pc :: int
  memory :: "int \<rightharpoonup> int"
  flagN :: bool
  flagZ :: bool
  flagC :: bool
  flagV :: bool
  symbolTable :: "string \<rightharpoonup> symbol"
  instructions :: "instruction list"
  currentInstructionIndex :: nat
  stackFrames :: "frame list"
  nextFrameId :: nat
  entryPointAddress :: int
  entryPointLabel :: "string option"
  entryFunctionEndIndex :: int

text \<open>\<open>reset()\<close>: every field is assigned afresh, so the result does not depend on the old
  state. The initial stack pointer is \<open>(STACK_END + 1n) & ~0xFn\<close>.\<close>

definition initialSp :: int where
  "initialSp = (rend stackRegion + 1) AND NOT 0xF"

definition reset :: sim where
  "reset =
    \<lparr>xregs = (\<lambda>n. 0), sp = initialSp, pc = 0, memory = Map.empty,
     flagN = False, flagZ = False, flagC = False, flagV = False,
     symbolTable = Map.empty, instructions = [], currentInstructionIndex = 0,
     stackFrames = [], nextFrameId = 1,
     entryPointAddress = 0, entryPointLabel = None, entryFunctionEndIndex = -1\<rparr>"

section \<open>Register file\<close>

text \<open>\<open>getRegisterValue(reg)\<close>. A missing operand (\<open>null\<close>/\<open>undefined\<close>) reads as \<open>0n\<close>;
  \<open>value || 0n\<close> returns the value itself since the fields always hold a BigInt.\<close>

definition getRegisterValue :: "sim \<Rightarrow> reg option \<Rightarrow> int" where
  "getRegisterValue s r =
    (case r of
       None \<Rightarrow> 0
     | Some LR \<Rightarrow> xregs s 30
     | Some SP \<Rightarrow> sp s
     | Some PC \<Rightarrow> pc s
     | Some (X n) \<Rightarrow> xregs s n
     | Some (W n) \<Rightarrow>
         (let xValue = xregs s n;
              lower32 = xValue AND 0xFFFFFFFF
          in if lower32 AND 0x80000000 \<noteq> 0 then lower32 OR 0xFFFFFFFF00000000 else lower32))"

text \<open>\<open>setRegisterValue(reg, value)\<close>.\<close>

definition setRegisterValue :: "sim \<Rightarrow> reg option \<Rightarrow> int \<Rightarrow> sim" where
  "setRegisterValue s r v =
    (case r of
       None \<Rightarrow> s
     | Some LR \<Rightarrow> s\<lparr>xregs := (xregs s)(30 := v)\<rparr>
     | Some SP \<Rightarrow> s\<lparr>sp := v\<rparr>
     | Some PC \<Rightarrow> s\<lparr>pc := v\<rparr>
     | Some (X n) \<Rightarrow> s\<lparr>xregs := (xregs s)(n := v)\<rparr>
     | Some (W n) \<Rightarrow> (let lower32 = v AND 0xFFFFFFFF in s\<lparr>xregs := (xregs s)(n := lower32)\<rparr>))"

section \<open>Memory subsystem\<close>

text \<open>\<open>getMemoryRegion(address)\<close>: the first region of the layout that holds the address.\<close>

definition getMemoryRegion :: "int \<Rightarrow> region option" where
  "getMemoryRegion addr = find (\<lambda>r. addr \<ge> rstart r \<and> addr \<le> rend r) memoryLayout"

text \<open>\<open>validateMemoryAccess(address, size, isWrite)\<close>; the alignment warnings only log.\<close>

definition validateMemoryAccess :: "sim \<Rightarrow> int \<Rightarrow> nat \<Rightarrow> bool \<Rightarrow> error + region" where
  "validateMemoryAccess s addr sz isWrite =
    (if addr = 0 \<or> (addr < 0x00100000 \<and> addr > 0) then Inl ZeroPageAccess
     else if addr < 0x00100000 \<or> addr + (int sz - 1) > 0x07FFFFFF then Inl OutOfBounds
     else case getMemoryRegion addr of
       None \<Rightarrow> Inl NotInAnyRegion
     | Some region \<Rightarrow>
         (let endAddr = addr + (int sz - 1);
              currentSP = sp s
          in if endAddr > rend region then Inl CrossesRegionBoundary
             else if isWrite \<and> readonly region then Inl ReadOnlyWrite
             else if isWrite \<and> currentSP < rend stackRegion \<and> currentSP \<ge> rstart stackRegion
                     \<and> addr \<ge> rstart heapRegion \<and> addr \<le> rend heapRegion
                     \<and> currentSP < rend heapRegion then Inl StackHeapCollision
             else if isWrite \<and> addr \<ge> rstart heapRegion \<and> addr \<le> rend heapRegion
                     \<and> currentSP < rend heapRegion \<and> currentSP \<ge> rstart stackRegion
                  then Inl StackHeapCollision
             else Inr region))"

text \<open>The checks that \<open>writeMemory\<close> repeats inline when \<open>skipReadonlyCheck\<close> is set.\<close>

definition validateInitWrite :: "int \<Rightarrow> nat \<Rightarrow> error + region" where
  "validateInitWrite addr sz =
    (if addr = 0 \<or> (addr < 0x00100000 \<and> addr > 0) then Inl ZeroPageAccess
     else if addr < 0x00100000 \<or> addr + (int sz - 1) > 0x07FFFFFF then Inl OutOfBounds
     else case getMemoryRegion addr of
       None \<Rightarrow> Inl NotInAnyRegion
     | Some region \<Rightarrow>
         if addr + (int sz - 1) > rend region then Inl CrossesRegionBoundary
         else Inr region)"

text \<open>The byte loop of \<open>writeMemory\<close>: little-endian, byte \<open>i\<close> is
  \<open>(value >> 8i) & 0xFF\<close>, stored under key \<open>addr + i\<close>.\<close>

definition storeBytes :: "(int \<rightharpoonup> int) \<Rightarrow> int \<Rightarrow> int \<Rightarrow> nat \<Rightarrow> (int \<rightharpoonup> int)" where
  "storeBytes m addr v sz =
    fold (\<lambda>i m'. m'(addr + int i \<mapsto> drop_bit (i * 8) v AND 0xFF)) [0..<sz] m"

text \<open>\<open>writeMemory(address, value, size, skipReadonlyCheck)\<close>. An exception leaves the
  simulator object as it is at the throw, so the model returns the state reached together
  with the error (if any).\<close>

definition writeMemory :: "sim \<Rightarrow> int \<Rightarrow> int \<Rightarrow> nat \<Rightarrow> bool \<Rightarrow> error option \<times> sim" where
  "writeMemory s addr v sz skipReadonlyCheck =
    (case (if \<not> skipReadonlyCheck then validateMemoryAccess s addr sz True
           else validateInitWrite addr sz) of
       Inl e \<Rightarrow> (Some e, s)
     | Inr _ \<Rightarrow> (None, s\<lparr>memory := storeBytes (memory s) addr v sz\<rparr>))"

text \<open>The byte loop of \<open>readMemory\<close>: a key absent from the map reads as byte 0.\<close>

definition loadBytes :: "(int \<rightharpoonup> int) \<Rightarrow> int \<Rightarrow> nat \<Rightarrow> int" where
  "loadBytes m addr sz =
    fold (\<lambda>i v. v OR push_bit (i * 8) (case m (addr + int i) of None \<Rightarrow> 0 | Some b \<Rightarrow> b))
      [0..<sz] 0"

text \<open>\<open>readMemory(address, size)\<close>: a 4-byte value with bit 31 set is sign-extended.\<close>

definition readMemory :: "sim \<Rightarrow> int \<Rightarrow> nat \<Rightarrow> error + int" where
  "readMemory s addr sz =
    (case validateMemoryAccess s addr sz False of
       Inl e \<Rightarrow> Inl e
     | Inr _ \<Rightarrow>
         (let v = loadBytes (memory s) addr sz
          in if sz = 4 \<and> v AND 0x80000000 \<noteq> 0 then Inr (v OR 0xFFFFFFFF00000000) else Inr v))"

section \<open>Immediate encoding for \<open>mov\<close>\<close>

text \<open>\<open>countBits(n)\<close>: the \<open>while (val > 0n)\<close> loop with its counter.\<close>

function countBitsLoop :: "nat \<Rightarrow> int \<Rightarrow> nat" where
  "countBitsLoop count val =
    (if val > 0
     then countBitsLoop (if val AND 1 \<noteq> 0 then count + 1 else count) (drop_bit 1 val)
     else count)"
  by pat_completeness auto
termination
  by (relation "measure (\<lambda>(count, val). nat val)") (auto simp: drop_bit_eq_div)

declare countBitsLoop.simps [simp del]

definition countBits :: "int \<Rightarrow> nat" where
  "countBits n = countBitsLoop 0 n"

definition movMask :: "bool \<Rightarrow> int" where
  "movMask is64Bit = (if is64Bit then 0xFFFFFFFFFFFFFFFF else 0xFFFFFFFF)"

definition movShifts :: "bool \<Rightarrow> nat list" where
  "movShifts is64Bit = (if is64Bit then [0, 16, 32, 48] else [0, 16])"

text \<open>Body of the first loop of \<open>isMovImmediateEncodable\<close> (the MOVZ pattern) at one shift.\<close>

definition movzMatches :: "int \<Rightarrow> int \<Rightarrow> nat \<Rightarrow> bool" where
  "movzMatches unsignedValue msk shift =
    (let shiftedMask = push_bit shift 0xFFFF AND msk;
         extracted = drop_bit shift (unsignedValue AND shiftedMask);
         otherBits = unsignedValue AND NOT shiftedMask
     in otherBits = 0 \<and> extracted \<le> 0xFFFF \<and> extracted > 0)"

text \<open>Body of the innermost loop (over \<open>checkShift\<close>): \<open>True\<close> where the source leaves
  \<open>isValidMovn\<close> set, \<open>False\<close> where it clears it and breaks.\<close>

definition movnChunkValid :: "int \<Rightarrow> int \<Rightarrow> nat \<Rightarrow> int \<Rightarrow> nat \<Rightarrow> bool" where
  "movnChunkValid unsignedValue msk shift extracted checkShift =
    (let checkMask = push_bit checkShift 0xFFFF AND msk;
         chunkValue = drop_bit checkShift (unsignedValue AND checkMask)
     in if checkShift = shift
        then (let expectedChunk = NOT extracted AND 0xFFFF
              in if chunkValue \<noteq> expectedChunk then False
                 else if chunkValue \<noteq> 0xFFFF
                      then \<not> (countBits chunkValue < 16 \<and> chunkValue \<noteq> 0)
                      else True)
        else chunkValue = 0xFFFF)"

text \<open>Body of the second loop (the MOVN pattern) at one shift.\<close>

definition movnMatches :: "int \<Rightarrow> int \<Rightarrow> nat list \<Rightarrow> nat \<Rightarrow> bool" where
  "movnMatches unsignedValue msk shifts shift =
    (let notValue = NOT unsignedValue AND msk;
         shiftedMask = push_bit shift 0xFFFF AND msk;
         extracted = drop_bit shift (notValue AND shiftedMask);
         otherBits = notValue AND NOT shiftedMask
     in otherBits = 0 \<and> extracted \<ge> 0 \<and> extracted \<le> 0xFFFF \<and> extracted > 0 \<and>
        (let reconstructed = push_bit shift extracted AND msk;
             originalReconstructed = NOT reconstructed AND msk
         in reconstructed = notValue \<and> originalReconstructed = unsignedValue \<and>
            list_all (movnChunkValid unsignedValue msk shift extracted) shifts))"

definition isMovImmediateEncodable :: "int \<Rightarrow> bool \<Rightarrow> bool" where
  "isMovImmediateEncodable v is64Bit =
    (let msk = movMask is64Bit;
         unsignedValue = v AND msk;
         shifts = movShifts is64Bit
     in list_ex (movzMatches unsignedValue msk) shifts
        \<or> list_ex (movnMatches unsignedValue msk shifts) shifts)"

definition isW :: "reg option \<Rightarrow> bool" where
  "isW r = (case r of Some (W n) \<Rightarrow> True | _ \<Rightarrow> False)"

definition isStackOp :: "reg option \<Rightarrow> bool" where
  "isStackOp r = (r = Some SP)"

text \<open>\<open>Number(value)\<close>, \<open>(n << 0) >> 0\<close> and \<open>n >>> 0\<close> of \<open>executeMov\<close>: the value taken
  as a signed and then again as an unsigned 32-bit integer.\<close>

definition toInt32 :: "int \<Rightarrow> int" where
  "toInt32 n = (let m = n mod 2 ^ 32 in if m \<ge> 2 ^ 31 then m - 2 ^ 32 else m)"

definition toUint32 :: "int \<Rightarrow> int" where
  "toUint32 n = n mod 2 ^ 32"

text \<open>\<open>executeMov(parsed)\<close>.\<close>

definition executeMov :: "sim \<Rightarrow> parsed \<Rightarrow> error + sim" where
  "executeMov s p =
    (if dest p = None then Inr s
     else case immediate p of
       Some originalValue \<Rightarrow>
         (let is64Bit = \<not> isW (dest p);
              msk = (if is64Bit then 0xFFFFFFFFFFFFFFFF else 0xFFFFFFFF);
              v = originalValue AND msk
          in if \<not> isMovImmediateEncodable v is64Bit then Inl MovNotEncodable
             else Inr (setRegisterValue s (dest p)
                        (if isW (dest p) then toUint32 (toInt32 v) else v)))
     | None \<Rightarrow>
         if src p \<noteq> None
         then Inr (setRegisterValue s (dest p) (getRegisterValue s (src p)))
         else Inr s)"

section \<open>Stack frames\<close>

text \<open>\<open>Array.prototype.sort\<close> is stable, and the comparator \<open>(a, b) => b.sp - a.sp\<close>
  orders by descending \<open>sp\<close>: the stable insertion sort on the key \<open>- sp\<close>.\<close>

definition sortFrames :: "frame list \<Rightarrow> frame list" where
  "sortFrames fs = sort_key (\<lambda>f. - fsp f) fs"

definition createStackFrame :: "sim \<Rightarrow> int \<Rightarrow> int \<Rightarrow> sim" where
  "createStackFrame s newSP sz =
    (let frame = \<lparr>fid = nextFrameId s, fsp = newSP, fsize = sz, ftop = newSP + sz\<rparr>
     in s\<lparr>nextFrameId := nextFrameId s + 1,
          stackFrames := sortFrames (stackFrames s @ [frame])\<rparr>)"

text \<open>\<open>findIndex\<close>: the index of the first element that satisfies the predicate.\<close>

fun findIndex :: "('a \<Rightarrow> bool) \<Rightarrow> 'a list \<Rightarrow> nat option" where
  "findIndex P [] = None"
| "findIndex P (x # xs) =
    (if P x then Some 0 else case findIndex P xs of None \<Rightarrow> None | Some i \<Rightarrow> Some (Suc i))"

definition destroyStackFrame :: "sim \<Rightarrow> int \<Rightarrow> int \<Rightarrow> sim" where
  "destroyStackFrame s newSP sz =
    (let frameToFree = newSP - sz
     in case findIndex (\<lambda>f. fsp f = frameToFree \<and> fsize f = sz) (stackFrames s) of
          Some frameIndex \<Rightarrow>
            s\<lparr>stackFrames := take frameIndex (stackFrames s) @ drop (Suc frameIndex) (stackFrames s)\<rparr>
        | None \<Rightarrow>
            (let sorted = sortFrames (stackFrames s)
             in s\<lparr>stackFrames := (if length sorted > 0 then tl sorted else sorted)\<rparr>))"

section \<open>Arithmetic\<close>

text \<open>The \<open>%\<close> of BigInt truncates towards zero: the remainder has the sign of the
  dividend.\<close>

definition bigintRem :: "int \<Rightarrow> int \<Rightarrow> int" where
  "bigintRem a b = sgn a * (\<bar>a\<bar> mod \<bar>b\<bar>)"

text \<open>\<open>executeAdd(parsed)\<close>.\<close>

definition executeAdd :: "sim \<Rightarrow> parsed \<Rightarrow> error + sim" where
  "executeAdd s p =
    (if dest p = None \<or> src1 p = None then Inl InvalidInstruction
     else
       (let val1 = getRegisterValue s (src1 p);
            operand =
              (case immediate p of
                 Some imm \<Rightarrow> Inr (Some imm)
               | None \<Rightarrow>
                   (case plabel p of
                      Some l \<Rightarrow>
                        if labelOp p = Some ''lo12'' \<and> l \<noteq> []
                        then (case symbolTable s l of
                                None \<Rightarrow> Inl LabelNotFound
                              | Some labelInfo \<Rightarrow> Inr (Some (saddress labelInfo AND 0xFFF)))
                        else if src2 p \<noteq> None then Inr (Some (getRegisterValue s (src2 p)))
                        else Inr None
                    | None \<Rightarrow>
                        if src2 p \<noteq> None then Inr (Some (getRegisterValue s (src2 p)))
                        else Inr None))
        in case operand of
             Inl e \<Rightarrow> Inl e
           | Inr None \<Rightarrow> Inr s
           | Inr (Some val2) \<Rightarrow>
               if isStackOp (dest p)
               then if bigintRem val2 16 \<noteq> 0 then Inl StackOperandNotMultipleOf16
                    else (let oldSP = val1; newSP = oldSP + val2
                          in if bigintRem newSP 16 \<noteq> 0 then Inl StackPointerMisaligned
                             else Inr (destroyStackFrame (setRegisterValue s (dest p) newSP)
                                         newSP val2))
               else Inr (setRegisterValue s (dest p) (val1 + val2))))"

text \<open>\<open>updateFlags(result, size)\<close>: sets N and Z only.\<close>

definition updateFlags :: "sim \<Rightarrow> int \<Rightarrow> nat \<Rightarrow> sim" where
  "updateFlags s result sz =
    (let msk = (if sz = 64 then 0xFFFFFFFFFFFFFFFF else 0xFFFFFFFF);
         signBit = (if sz = 64 then 63 else 31)
     in s\<lparr>flagN := (result AND push_bit signBit 1 \<noteq> 0), flagZ := (result AND msk = 0)\<rparr>)"

text \<open>\<open>executeSub(parsed, setFlags)\<close>.\<close>

definition executeSub :: "sim \<Rightarrow> parsed \<Rightarrow> bool \<Rightarrow> error + sim" where
  "executeSub s p setFlags =
    (if dest p = None \<or> src1 p = None then Inl InvalidInstruction
     else
       (let val1 = getRegisterValue s (src1 p);
            operand =
              (case immediate p of
                 Some imm \<Rightarrow> Some imm
               | None \<Rightarrow> if src2 p \<noteq> None then Some (getRegisterValue s (src2 p)) else None)
        in case operand of
             None \<Rightarrow> Inl InvalidInstruction
           | Some val2 \<Rightarrow>
               if isStackOp (dest p)
               then if bigintRem val2 16 \<noteq> 0 then Inl StackOperandNotMultipleOf16
                    else (let oldSP = val1; newSP = oldSP - val2
                          in if bigintRem newSP 16 \<noteq> 0 then Inl StackPointerMisaligned
                             else if newSP < 0 then Inl StackOverflow
                             else Inr (createStackFrame (setRegisterValue s (dest p) newSP)
                                         newSP val2))
               else (let result = val1 - val2;
                         s' = setRegisterValue s (dest p) result
                     in if setFlags then Inr (updateFlags s' result (if isW (dest p) then 32 else 64))
                        else Inr s')))"

datatype operation = AddOp | SubOp

text \<open>The flag assignments that close \<open>executeArithmeticWithFlags\<close>.\<close>

definition setArithmeticFlags ::
  "sim \<Rightarrow> operation \<Rightarrow> int \<Rightarrow> int \<Rightarrow> int \<Rightarrow> int \<Rightarrow> int \<Rightarrow> sim" where
  "setArithmeticFlags s operation msk signMask maskedVal1 maskedVal2 result =
    (let val1Negative = (maskedVal1 AND signMask \<noteq> 0);
         val2Negative = (maskedVal2 AND signMask \<noteq> 0);
         resultNegative = (result AND signMask \<noteq> 0)
     in s\<lparr>flagN := (result AND signMask \<noteq> 0),
          flagZ := (result AND msk = 0),
          flagC := (case operation of
                      AddOp \<Rightarrow> result < maskedVal1
                    | SubOp \<Rightarrow> maskedVal1 \<ge> maskedVal2),
          flagV := (case operation of
                      AddOp \<Rightarrow> (val1Negative = val2Negative) \<and> (resultNegative \<noteq> val1Negative)
                    | SubOp \<Rightarrow> (val1Negative \<noteq> val2Negative) \<and> (resultNegative \<noteq> val1Negative))\<rparr>)"

text \<open>\<open>executeArithmeticWithFlags(parsed, operation, writeResult)\<close>: \<open>adds\<close> and \<open>subs\<close>
  call it with \<open>writeResult\<close> set, \<open>cmn\<close> and \<open>cmp\<close> without.\<close>

definition executeArithmeticWithFlags :: "sim \<Rightarrow> parsed \<Rightarrow> operation \<Rightarrow> bool \<Rightarrow> error + sim" where
  "executeArithmeticWithFlags s p operation writeResult =
    (if src1 p = None then Inl InvalidInstruction
     else
       (let val1 = getRegisterValue s (src1 p);
            operand =
              (case immediate p of
                 Some imm \<Rightarrow> Some imm
               | None \<Rightarrow> if src2 p \<noteq> None then Some (getRegisterValue s (src2 p)) else None)
        in case operand of
             None \<Rightarrow> Inl InvalidInstruction
           | Some val2 \<Rightarrow>
               (let sz = (if isW (src1 p) then 32 else 64 :: nat);
                    msk = (if sz = 64 then 0xFFFFFFFFFFFFFFFF else 0xFFFFFFFF);
                    signBit = (if sz = 64 then 63 else 31 :: nat);
                    signMask = push_bit signBit 1;
                    maskedVal1 = val1 AND msk;
                    maskedVal2 = val2 AND msk;
                    result = (case operation of
                                AddOp \<Rightarrow> (maskedVal1 + maskedVal2) AND msk
                              | SubOp \<Rightarrow> (maskedVal1 - maskedVal2) AND msk)
                in if writeResult \<and> dest p \<noteq> None
                   then if isStackOp (dest p)
                        then (case operation of
                                AddOp \<Rightarrow>
                                  if bigintRem val2 16 \<noteq> 0 then Inl StackOperandNotMultipleOf16
                                  else (let newSP = val1 + val2
                                        in if bigintRem newSP 16 \<noteq> 0 then Inl StackPointerMisaligned
                                           else Inr (setArithmeticFlags
                                                  (destroyStackFrame (setRegisterValue s (dest p) newSP)
                                                     newSP val2)
                                                  operation msk signMask maskedVal1 maskedVal2
                                                  (newSP AND msk)))
                              | SubOp \<Rightarrow>
                                  if bigintRem val2 16 \<noteq> 0 then Inl StackOperandNotMultipleOf16
                                  else (let newSP = val1 - val2
                                        in if bigintRem newSP 16 \<noteq> 0 then Inl StackPointerMisaligned
                                           else if newSP < 0 then Inl StackOverflow
                                           else Inr (setArithmeticFlags
                                                  (createStackFrame (setRegisterValue s (dest p) newSP)
                                                     newSP val2)
                                                  operation msk signMask maskedVal1 maskedVal2
                                                  (newSP AND msk))))
                        else Inr (setArithmeticFlags (setRegisterValue s (dest p) result)
                                    operation msk signMask maskedVal1 maskedVal2 result)
                   else Inr (setArithmeticFlags s operation msk signMask maskedVal1 maskedVal2
                               result))))"

section \<open>Loads and stores\<close>




section \<open>Return\<close>

text \<open>The loop of \<open>findInstructionIndexByAddress\<close> from index \<open>i\<close> on.\<close>

fun findIndexFrom :: "instruction list \<Rightarrow> int \<Rightarrow> nat \<Rightarrow> nat" where
  "findIndexFrom [] addr i = 0"
| "findIndexFrom (ins # rest) addr i =
    (if address ins = addr then i
     else if address ins > addr then (if i > 0 then i - 1 else 0)
     else findIndexFrom rest addr (Suc i))"

definition findInstructionIndexByAddress :: "sim \<Rightarrow> int \<Rightarrow> nat" where
  "findInstructionIndexByAddress s addr = findIndexFrom (instructions s) addr 0"

text \<open>\<open>executeRet(parsed)\<close>: the flag returned says whether control was transferred
  (\<open>False\<close> ends the program). A label is truthy when it is a non-empty string.\<close>

definition executeRet :: "sim \<Rightarrow> parsed \<Rightarrow> bool \<times> sim" where
  "executeRet s p =
    (let currentInstructionAddr = pc s;
         currentIndex = findInstructionIndexByAddress s currentInstructionAddr;
         entryPointIndex = findInstructionIndexByAddress s (entryPointAddress s)
     in if (case entryPointLabel s of None \<Rightarrow> False | Some l \<Rightarrow> l \<noteq> [])
           \<and> entryPointAddress s \<ge> 0
           \<and> currentIndex \<ge> entryPointIndex
           \<and> int currentIndex < entryFunctionEndIndex s
           \<and> currentInstructionAddr \<ge> entryPointAddress s
        then (False, s\<lparr>pc := 0\<rparr>)
        else
          (let retAddr = (if src p \<noteq> None then getRegisterValue s (src p)
                          else getRegisterValue s (Some (X 30)))
           in if retAddr = 0 \<or> retAddr < 0 then (False, s\<lparr>pc := 0\<rparr>)
              else
                (let instructionIndex = findInstructionIndexByAddress s retAddr
                 in if int instructionIndex < 0 \<or> instructionIndex \<ge> length (instructions s)
                    then (False, s\<lparr>pc := 0\<rparr>)
                    else (True, s\<lparr>pc := retAddr, currentInstructionIndex := instructionIndex\<rparr>))))"

section \<open>Assembler: lines and patterns\<close>

text \<open>
  Source lines are ASCII text. \<open>isSpace\<close> is the ASCII part of what \<open>trim()\<close> and the
  pattern \<open>\s\<close> accept; \<open>dotChar\<close> is what the pattern \<open>.\<close> accepts (no line terminator).
\<close>

definition isSpace :: "char \<Rightarrow> bool" where
  "isSpace c = (c \<in> set [CHR 0x09, CHR 0x0A, CHR 0x0B, CHR 0x0C, CHR 0x0D, CHR 0x20])"

definition dotChar :: "char \<Rightarrow> bool" where
  "dotChar c = (c \<noteq> CHR 0x0A \<and> c \<noteq> CHR 0x0D)"

definition trim :: "string \<Rightarrow> string" where
  "trim t = rev (dropWhile isSpace (rev (dropWhile isSpace t)))"

definition toLowerChar :: "char \<Rightarrow> char" where
  "toLowerChar c =
    (if (65 :: nat) \<le> of_char c \<and> of_char c \<le> (90 :: nat) then char_of (of_char c + 32 :: nat) else c)"

definition toLowerCase :: "string \<Rightarrow> string" where
  "toLowerCase t = map toLowerChar t"

definition isIdentStart :: "char \<Rightarrow> bool" where
  "isIdentStart c =
    (((97 :: nat) \<le> of_char c \<and> of_char c \<le> (122 :: nat))
     \<or> ((65 :: nat) \<le> of_char c \<and> of_char c \<le> (90 :: nat)) \<or> c = CHR ''_'')"

definition isIdentChar :: "char \<Rightarrow> bool" where
  "isIdentChar c = (isIdentStart c \<or> ((48 :: nat) \<le> of_char c \<and> of_char c \<le> (57 :: nat)))"

text \<open>\<open>removeComments(line)\<close>: the line up to the first \<open>//\<close> or \<open>;\<close>, whichever comes
  first.\<close>

fun removeComments :: "string \<Rightarrow> string" where
  "removeComments [] = []"
| "removeComments (c # cs) =
    (if c = CHR '';'' \<or> (c = CHR ''/'' \<and> take 1 cs = ''/'') then []
     else c # removeComments cs)"

text \<open>\<open>line.split('//')[0]\<close>: the line up to the first \<open>//\<close>.\<close>

fun removeSlashComment :: "string \<Rightarrow> string" where
  "removeSlashComment [] = []"
| "removeSlashComment (c # cs) =
    (if c = CHR ''/'' \<and> take 1 cs = ''/'' then [] else c # removeSlashComment cs)"

text \<open>\<open>split(/\s+/).filter(p => p.length > 0)\<close>: the maximal runs of non-blank
  characters.\<close>

fun wordsFrom :: "string \<Rightarrow> string \<Rightarrow> string list" where
  "wordsFrom acc [] = (if acc = [] then [] else [rev acc])"
| "wordsFrom acc (c # cs) =
    (if isSpace c then (if acc = [] then wordsFrom [] cs else rev acc # wordsFrom [] cs)
     else wordsFrom (c # acc) cs)"

definition splitWords :: "string \<Rightarrow> string list" where
  "splitWords t = wordsFrom [] t"

text \<open>The tail that a pattern ending in \<open>\s*(.*)$\<close> (or \<open>\s+(.+)$\<close>, with \<open>least = 1\<close>)
  captures from \<open>r\<close>: the blank prefix is taken greedily and given back one character at
  a time until the rest holds no line terminator (and, for \<open>.+\<close>, is not empty).\<close>

definition captureRest :: "nat \<Rightarrow> string \<Rightarrow> string option" where
  "captureRest least r =
    (let n = length (takeWhile isSpace r)
     in case find (\<lambda>k. list_all dotChar (drop k r) \<and> (least = 0 \<or> drop k r \<noteq> []))
               (rev [least..<Suc n]) of
          None \<Rightarrow> None
        | Some k \<Rightarrow> Some (drop k r))"

text \<open>\<open>/^\.(text|rodata|data|bss)\s*$/i\<close>: the section named, in lower case.\<close>

definition sectionMatch :: "string \<Rightarrow> string option" where
  "sectionMatch t =
    (let l = toLowerCase (rev (dropWhile isSpace (rev t)))
     in if l \<in> set [''.text'', ''.rodata'', ''.data'', ''.bss''] then Some (tl l) else None)"

text \<open>\<open>/^\.global\s+(.+)$/i\<close>: the text after the directive.\<close>

definition globalMatch :: "string \<Rightarrow> string option" where
  "globalMatch t =
    (if toLowerCase (take 7 t) = ''.global'' then captureRest 1 (drop 7 t) else None)"

text \<open>\<open>/^([a-zA-Z_][a-zA-Z0-9_]*)\s*:\s*(.*)$/\<close>: the label and what follows the colon.\<close>

definition labelMatch :: "string \<Rightarrow> (string \<times> string) option" where
  "labelMatch t =
    (case t of
       [] \<Rightarrow> None
     | c # cs \<Rightarrow>
         if \<not> isIdentStart c then None
         else (case dropWhile isSpace (dropWhile isIdentChar cs) of
                 [] \<Rightarrow> None
               | d # ds \<Rightarrow>
                   if d \<noteq> CHR '':'' then None
                   else (case captureRest 0 ds of
                           None \<Rightarrow> None
                         | Some rest \<Rightarrow> Some (c # takeWhile isIdentChar cs, rest))))"

text \<open>\<open>/^[a-zA-Z_][a-zA-Z0-9_]*\s*:\s*$/\<close>: a label and nothing else.\<close>

definition labelOnlyMatch :: "string \<Rightarrow> bool" where
  "labelOnlyMatch t =
    (case t of
       [] \<Rightarrow> False
     | c # cs \<Rightarrow>
         isIdentStart c \<and>
         (case dropWhile isSpace (dropWhile isIdentChar cs) of
            [] \<Rightarrow> False
          | d # ds \<Rightarrow> d = CHR '':'' \<and> dropWhile isSpace ds = []))"

text \<open>\<open>/^\.(name|...)\s*(.*)$/i\<close> for a list of directive names: the name matched, in
  lower case, and the text after it.\<close>

definition directiveMatch :: "string list \<Rightarrow> string \<Rightarrow> (string \<times> string) option" where
  "directiveMatch names l =
    (case l of
       [] \<Rightarrow> None
     | c # cs \<Rightarrow>
         if c \<noteq> CHR ''.'' then None
         else (case find (\<lambda>n. toLowerCase (take (length n) cs) = n) names of
                 None \<Rightarrow> None
               | Some n \<Rightarrow>
                   (case captureRest 0 (drop (length n) cs) of
                      None \<Rightarrow> None
                    | Some rest \<Rightarrow> Some (n, rest))))"

text \<open>\<open>split(',')\<close>.\<close>

fun splitComma :: "string \<Rightarrow> string list" where
  "splitComma [] = [] # []"
| "splitComma (c # cs) =
    (if c = CHR '','' then [] # splitComma cs
     else (case splitComma cs of [] \<Rightarrow> [c] # [] | p # ps \<Rightarrow> (c # p) # ps))"

section \<open>Assembler: instruction parser\<close>

text \<open>The opcodes whose \<open>case\<close> of \<open>parseInstruction\<close> decodes operands, and the
  conditional branches of its \<open>default\<close> case.\<close>

definition operandOpcodes :: "string list" where
  "operandOpcodes =
    [''mov'', ''add'', ''adds'', ''sub'', ''subs'', ''cmp'', ''cmn'', ''and'', ''ands'', ''orr'',
     ''eor'', ''bic'', ''lsl'', ''lsr'', ''asr'', ''ror'', ''mvn'', ''b'', ''bl'', ''cbz'', ''cbnz'',
     ''str'', ''ldr'', ''adr'', ''adrp'']"

definition conditionalBranches :: "string list" where
  "conditionalBranches =
    [''beq'', ''bne'', ''blt'', ''ble'', ''bgt'', ''bge'', ''blo'', ''bls'', ''bhi'', ''bhs'',
     ''bmi'', ''bpl'']"

text \<open>
  \<open>parseInstruction(line)\<close>: \<open>Inr None\<close> is the \<open>null\<close> it returns for an empty line and for
  an unknown opcode. The decoding of the operands of a known opcode (the bodies of the
  \<open>case\<close>s, which the properties below do not depend on) is the parameter \<open>operands\<close>:
  given the opcode, the parts and the line it yields the record or the exception thrown.
  \<open>ret\<close> has no operands: its record holds the opcode and the line only.
\<close>

definition parseInstruction ::
  "(string \<Rightarrow> string list \<Rightarrow> string \<Rightarrow> error + parsed) \<Rightarrow> string \<Rightarrow> error + parsed option" where
  "parseInstruction operands line0 =
    (let line = trim (takeWhile (\<lambda>c. c \<noteq> CHR '';'') (removeSlashComment line0))
     in if line = [] then Inr None
        else (case splitWords line of
                [] \<Rightarrow> Inl OperandSyntaxError
              | part0 # rest \<Rightarrow>
                  (let opcode = toLowerCase part0
                   in if opcode = ''ret'' then Inr (Some (noOperands opcode line))
                      else if opcode \<in> set operandOpcodes \<or> opcode \<in> set conditionalBranches
                      then (case operands opcode (part0 # rest) line of
                              Inl e \<Rightarrow> Inl e
                            | Inr p \<Rightarrow> Inr (Some p))
                      else Inr None)))"

section \<open>Assembler: Pass 1 and Pass 2\<close>

record counters =
  cRodata :: int
  cData :: int
  cBss :: int
  cText :: int

definition initialCounters :: counters where
  "initialCounters =
    \<lparr>cRodata = rstart (memoryLayout ! 0), cData = rstart (memoryLayout ! 1),
     cBss = rstart (memoryLayout ! 2), cText = 0\<rparr>"

text \<open>\<open>sectionCounters[currentSection]\<close>, read and written.\<close>

definition counterOf :: "counters \<Rightarrow> string \<Rightarrow> int" where
  "counterOf cs sec =
    (if sec = ''rodata'' then cRodata cs else if sec = ''data'' then cData cs
     else if sec = ''bss'' then cBss cs else cText cs)"

definition setCounter :: "counters \<Rightarrow> string \<Rightarrow> int \<Rightarrow> counters" where
  "setCounter cs sec v =
    (if sec = ''rodata'' then cs\<lparr>cRodata := v\<rparr> else if sec = ''data'' then cs\<lparr>cData := v\<rparr>
     else if sec = ''bss'' then cs\<lparr>cBss := v\<rparr> else cs\<lparr>cText := v\<rparr>)"

text \<open>The state of the loop of \<open>buildSymbolTable\<close>. The symbol table is a JavaScript
  \<open>Map\<close>: an association list in insertion order with unique keys.\<close>

record pass1 =
  p1Symbols :: "(string \<times> symbol) list"
  p1Globals :: "string list"
  p1Section :: string
  p1Counters :: counters

definition pass1Start :: pass1 where
  "pass1Start =
    \<lparr>p1Symbols = [], p1Globals = [], p1Section = ''text'', p1Counters = initialCounters\<rparr>"

text \<open>
  One iteration of the loop of \<open>buildSymbolTable\<close>. How a data directive moves the counter
  of its section (the branches on \<open>.align\<close>, \<open>.asciz\<close>, \<open>.quad\<close> and the others) is the
  parameter \<open>directiveSize\<close>: from the directive, the text after it and the counter to the
  new counter.
\<close>

definition buildSymbolTableLine ::
  "(string \<Rightarrow> string \<Rightarrow> int \<Rightarrow> int) \<Rightarrow> pass1 \<Rightarrow> string \<Rightarrow> error + pass1" where
  "buildSymbolTableLine directiveSize st line =
    (let trimmed = trim (removeComments line)
     in if trimmed = [] then Inr st
        else case sectionMatch trimmed of
          Some sec \<Rightarrow> Inr (st\<lparr>p1Section := sec\<rparr>)
        | None \<Rightarrow>
          (case globalMatch trimmed of
             Some names \<Rightarrow> Inr (st\<lparr>p1Globals := p1Globals st @ map trim (splitComma names)\<rparr>)
           | None \<Rightarrow>
             (let advance = (\<lambda>st' lineAfterLabel.
                    if p1Section st' = ''text''
                    then st'\<lparr>p1Counters := (p1Counters st')\<lparr>cText := cText (p1Counters st') + 4\<rparr>\<rparr>
                    else (case directiveMatch [''quad'', ''word'', ''hword'', ''byte'', ''skip'',
                                               ''align'', ''asciz'', ''string''] lineAfterLabel of
                            Some (directive, rest) \<Rightarrow>
                              st'\<lparr>p1Counters := setCounter (p1Counters st') (p1Section st')
                                    (directiveSize directive (trim rest)
                                       (counterOf (p1Counters st') (p1Section st')))\<rparr>
                          | None \<Rightarrow>
                              if take 1 trimmed \<noteq> ''.''
                              then st'\<lparr>p1Counters := (p1Counters st')\<lparr>cText := cText (p1Counters st') + 4\<rparr>\<rparr>
                              else st'))
              in case labelMatch trimmed of
                   None \<Rightarrow> Inr (advance st trimmed)
                 | Some (labelName, after) \<Rightarrow>
                     if labelName \<in> fst ` set (p1Symbols st) then Inl DuplicateLabel
                     else (let st' = st\<lparr>p1Symbols := p1Symbols st @
                                  [(labelName,
                                    \<lparr>saddress = counterOf (p1Counters st) (p1Section st),
                                     ssection = p1Section st,
                                     isGlobal = (labelName \<in> set (p1Globals st))\<rparr>)]\<rparr>
                           in if trim after = [] then Inr st' else Inr (advance st' (trim after))))))"

fun buildSymbolTableLines ::
  "(string \<Rightarrow> string \<Rightarrow> int \<Rightarrow> int) \<Rightarrow> pass1 \<Rightarrow> string list \<Rightarrow> error + pass1" where
  "buildSymbolTableLines directiveSize st [] = Inr st"
| "buildSymbolTableLines directiveSize st (line # rest) =
    (case buildSymbolTableLine directiveSize st line of
       Inl e \<Rightarrow> Inl e
     | Inr st' \<Rightarrow> buildSymbolTableLines directiveSize st' rest)"

text \<open>\<open>buildSymbolTable(lines)\<close>: the symbol table and the final counters.\<close>

definition buildSymbolTable ::
  "(string \<Rightarrow> string \<Rightarrow> int \<Rightarrow> int) \<Rightarrow> string list
    \<Rightarrow> error + ((string \<times> symbol) list \<times> counters)" where
  "buildSymbolTable directiveSize lines =
    (case buildSymbolTableLines directiveSize pass1Start lines of
       Inl e \<Rightarrow> Inl e
     | Inr st \<Rightarrow> Inr (p1Symbols st, p1Counters st))"

record dataInit =
  daddress :: int
  dvalue :: int
  dsize :: nat
  dsection :: string

record pass2 =
  p2Instructions :: "instruction list"
  p2Data :: "dataInit list"
  p2Section :: string
  p2Counters :: counters

definition pass2Start :: pass2 where
  "pass2Start =
    \<lparr>p2Instructions = [], p2Data = [], p2Section = ''text'', p2Counters = initialCounters\<rparr>"

text \<open>
  One iteration of the loop of \<open>parseProgram\<close>. What a data directive other than
  \<open>.global\<close> emits and how it moves the counter of its section is the parameter
  \<open>directiveData\<close>: from the directive, the text after it, the section, its counter and the
  symbol table to the initializations emitted and the new counter, or the exception.
\<close>

definition parseProgramLine ::
  "(string \<Rightarrow> string list \<Rightarrow> string \<Rightarrow> error + parsed)
    \<Rightarrow> (string \<Rightarrow> string \<Rightarrow> string \<Rightarrow> int \<Rightarrow> (string \<times> symbol) list \<Rightarrow> error + (dataInit list \<times> int))
    \<Rightarrow> (string \<times> symbol) list \<Rightarrow> pass2 \<Rightarrow> string \<Rightarrow> error + pass2" where
  "parseProgramLine operands directiveData symbols st line =
    (let trimmed = trim (removeComments line)
     in if trimmed = [] then Inr st
        else case sectionMatch trimmed of
          Some sec \<Rightarrow> Inr (st\<lparr>p2Section := sec\<rparr>)
        | None \<Rightarrow>
          (let labelled = labelMatch trimmed;
               lineAfterLabel = (case labelled of None \<Rightarrow> trimmed | Some (labelName, after) \<Rightarrow> trim after)
           in if labelled = None \<and> labelOnlyMatch trimmed then Inr st
              else if take 1 lineAfterLabel = ''.''
              then (case directiveMatch [''quad'', ''word'', ''hword'', ''byte'', ''skip'', ''align'',
                                         ''global'', ''asciz'', ''string''] lineAfterLabel of
                      None \<Rightarrow> Inr st
                    | Some (directive, rest) \<Rightarrow>
                        if directive = ''global'' then Inr st
                        else (case directiveData directive (trim rest) (p2Section st)
                                     (counterOf (p2Counters st) (p2Section st)) symbols of
                                Inl e \<Rightarrow> Inl e
                              | Inr (inits, counter) \<Rightarrow>
                                  Inr (st\<lparr>p2Data := p2Data st @ inits,
                                          p2Counters := setCounter (p2Counters st) (p2Section st) counter\<rparr>)))
              else if p2Section st = ''text''
              then (case parseInstruction operands trimmed of
                      Inl e \<Rightarrow> Inl e
                    | Inr None \<Rightarrow> Inr st
                    | Inr (Some p) \<Rightarrow>
                        Inr (st\<lparr>p2Instructions := p2Instructions st @
                                  [\<lparr>original = trimmed, address = cText (p2Counters st), iparsed = p\<rparr>],
                                p2Counters := (p2Counters st)\<lparr>cText := cText (p2Counters st) + 4\<rparr>\<rparr>))
              else Inr st))"

fun parseProgramLines ::
  "(string \<Rightarrow> string list \<Rightarrow> string \<Rightarrow> error + parsed)
    \<Rightarrow> (string \<Rightarrow> string \<Rightarrow> string \<Rightarrow> int \<Rightarrow> (string \<times> symbol) list \<Rightarrow> error + (dataInit list \<times> int))
    \<Rightarrow> (string \<times> symbol) list \<Rightarrow> pass2 \<Rightarrow> string list \<Rightarrow> error + pass2" where
  "parseProgramLines operands directiveData symbols st [] = Inr st"
| "parseProgramLines operands directiveData symbols st (line # rest) =
    (case parseProgramLine operands directiveData symbols st line of
       Inl e \<Rightarrow> Inl e
     | Inr st' \<Rightarrow> parseProgramLines operands directiveData symbols st' rest)"

text \<open>\<open>parseProgram(lines, symbolTable)\<close>: the instruction list and the data
  initializations.\<close>

definition parseProgram ::
  "(string \<Rightarrow> string list \<Rightarrow> string \<Rightarrow> error + parsed)
    \<Rightarrow> (string \<Rightarrow> string \<Rightarrow> string \<Rightarrow> int \<Rightarrow> (string \<times> symbol) list \<Rightarrow> error + (dataInit list \<times> int))
    \<Rightarrow> string list \<Rightarrow> (string \<times> symbol) list \<Rightarrow> error + (instruction list \<times> dataInit list)" where
  "parseProgram operands directiveData lines symbols =
    (case parseProgramLines operands directiveData symbols pass2Start lines of
       Inl e \<Rightarrow> Inl e
     | Inr st \<Rightarrow> Inr (p2Instructions st, p2Data st))"

section \<open>Predicates of the specification\<close>

text \<open>The byte range of an access of \<open>sz\<close> bytes at \<open>addr\<close> lies entirely within region
  \<open>r\<close>; and it lies entirely within one of the five regions.\<close>

definition accessInRegion :: "region \<Rightarrow> int \<Rightarrow> nat \<Rightarrow> bool" where
  "accessInRegion r addr sz =
    list_all (\<lambda>i. rstart r \<le> addr + int i \<and> addr + int i \<le> rend r) [0..<sz]"

definition inOneRegion :: "int \<Rightarrow> nat \<Rightarrow> bool" where
  "inOneRegion addr sz = list_ex (\<lambda>r. accessInRegion r addr sz) memoryLayout"

text \<open>The second operand of an arithmetic instruction: the immediate if the parser set
  one, else the value of the second source register. The operand width the flag-setting
  instructions choose: 32 when the first source register is a \<open>w\<close> view, else 64.\<close>

definition secondOperand :: "sim \<Rightarrow> parsed \<Rightarrow> int" where
  "secondOperand s p =
    (case immediate p of Some imm \<Rightarrow> imm | None \<Rightarrow> getRegisterValue s (src2 p))"

definition operandWidth :: "parsed \<Rightarrow> nat" where
  "operandWidth p = (if isW (src1 p) then 32 else 64)"

text \<open>The operand width and the written value as the specification words them for \<open>add\<close>,
  \<open>adds\<close>, \<open>sub\<close>, \<open>subs\<close>, \<open>cmp\<close> and \<open>cmn\<close>: 32 bits if either operand register
  is a \<open>w\<close> view, else 64; the sum or difference masked to that width.\<close>

definition specOperandWidth :: "parsed \<Rightarrow> nat" where
  "specOperandWidth p = (if isW (src1 p) \<or> isW (src2 p) then 32 else 64)"

definition specArithmeticValue :: "sim \<Rightarrow> parsed \<Rightarrow> operation \<Rightarrow> int" where
  "specArithmeticValue s p operation =
    take_bit (specOperandWidth p)
      (case operation of
         AddOp \<Rightarrow> getRegisterValue s (src1 p) + secondOperand s p
       | SubOp \<Rightarrow> getRegisterValue s (src1 p) - secondOperand s p)"

text \<open>Two instructions in sequence: an exception of the first ends the run.\<close>

definition thenExec :: "error + sim \<Rightarrow> (sim \<Rightarrow> error + sim) \<Rightarrow> error + sim" where
  "thenExec r f = (case r of Inl e \<Rightarrow> Inl e | Inr s \<Rightarrow> f s)"

text \<open>The stack-frame list is ordered by descending \<open>sp\<close>, as \<open>createStackFrame\<close> leaves it.\<close>

definition framesSorted :: "frame list \<Rightarrow> bool" where
  "framesSorted fs = sorted (map (\<lambda>f. - fsp f) fs)"

text \<open>\<open>Number(x)\<close> is exact for a BigInt \<open>x\<close> of this range; the frame records are
  modelled for such stack pointers and sizes.\<close>

definition exactNumber :: "int \<Rightarrow> bool" where
  "exactNumber x = (\<bar>x\<bar> \<le> 2 ^ 53)"

text \<open>The operand records of \<open>sub sp, sp, #imm\<close> and \<open>add sp, sp, #imm\<close>.\<close>

definition subSp :: "int \<Rightarrow> parsed" where
  "subSp imm = (noOperands ''sub'' ''sub sp, sp, #imm'')
                 \<lparr>dest := Some SP, src1 := Some SP, immediate := Some imm\<rparr>"

definition addSp :: "int \<Rightarrow> parsed" where
  "addSp imm = (noOperands ''add'' ''add sp, sp, #imm'')
                 \<lparr>dest := Some SP, src1 := Some SP, immediate := Some imm\<rparr>"

text \<open>The state reached from \<open>reset\<close> by \<open>sub sp, sp, #16\<close>, \<open>sub sp, sp, #16\<close>,
  \<open>add sp, sp, #32\<close>, \<open>sub sp, sp, #16\<close>: the second frame has outlived the \<open>add\<close>, which
  found no frame of size 32 and removed the first of the list instead.\<close>

definition staleFrameState :: sim where
  "staleFrameState =
    reset\<lparr>sp := 0x07FFFFF0,
          stackFrames :=
            [\<lparr>fid = 3, fsp = 0x07FFFFF0, fsize = 16, ftop = 0x08000000\<rparr>,
             \<lparr>fid = 2, fsp = 0x07FFFFE0, fsize = 16, ftop = 0x07FFFFF0\<rparr>],
          nextFrameId := 4\<rparr>"

text \<open>The program \<open>_start:\<close>, \<open>mov x30, #0x1000\<close>, \<open>b f\<close>, \<open>f:\<close>, \<open>ret\<close> as loaded
  (instructions at 0, 4 and 8; entry function \<open>_start\<close> ending before index 2, where \<open>f\<close>
  begins), in the state in which \<open>step\<close> hands the \<open>ret\<close> at address 8 to \<open>executeRet\<close>.\<close>

definition retProgram :: "instruction list" where
  "retProgram =
    [\<lparr>original = ''mov x30, #0x1000'', address = 0,
      iparsed = (noOperands ''mov'' ''mov x30, #0x1000'')
                  \<lparr>dest := Some (X 30), immediate := Some 0x1000\<rparr>\<rparr>,
     \<lparr>original = ''b f'', address = 4,
      iparsed = (noOperands ''b'' ''b f'')\<lparr>plabel := Some ''f''\<rparr>\<rparr>,
     \<lparr>original = ''ret'', address = 8, iparsed = noOperands ''ret'' ''ret''\<rparr>]"

definition retOutsideState :: sim where
  "retOutsideState =
    reset\<lparr>xregs := (xregs reset)(30 := 0x1000), pc := 8,
          symbolTable := [''_start'' \<mapsto> \<lparr>saddress = 0, ssection = ''text'', isGlobal = False\<rparr>,
                          ''f'' \<mapsto> \<lparr>saddress = 8, ssection = ''text'', isGlobal = False\<rparr>],
          instructions := retProgram, currentInstructionIndex := 2,
          entryPointAddress := 0, entryPointLabel := Some ''_start'',
          entryFunctionEndIndex := 2\<rparr>"

text \<open>The 16-bit chunk of \<open>u\<close> at bit offset \<open>t\<close>. The MOVZ form in the words of the
  specification: \<open>u\<close> is a 16-bit value positioned at bit offset \<open>s\<close>, all other bits
  zero. An immediate is encodable, in those words, when its \<open>w\<close>-bit representation or the
  bitwise complement of it has the MOVZ form at one of the offsets.\<close>

definition chunk16 :: "int \<Rightarrow> nat \<Rightarrow> int" where
  "chunk16 u t = take_bit 16 (drop_bit t u)"

definition isMovzForm :: "int \<Rightarrow> nat \<Rightarrow> bool" where
  "isMovzForm u s = (u = push_bit s (chunk16 u s))"

definition movWidth :: "bool \<Rightarrow> nat" where
  "movWidth is64Bit = (if is64Bit then 64 else 32)"

definition specMovEncodable :: "int \<Rightarrow> bool \<Rightarrow> bool" where
  "specMovEncodable v is64Bit =
    (let u = take_bit (movWidth is64Bit) v
     in list_ex (isMovzForm u) (movShifts is64Bit)
        \<or> list_ex (isMovzForm (take_bit (movWidth is64Bit) (NOT u))) (movShifts is64Bit))"

text \<open>What the encodability test accepts: every chunk of \<open>u\<close> other than the one at \<open>s\<close>
  is zero; or the chunk at \<open>s\<close> is zero and every other chunk is \<open>0xFFFF\<close>.\<close>

definition onlyChunk :: "int \<Rightarrow> nat list \<Rightarrow> nat \<Rightarrow> bool" where
  "onlyChunk u shifts s = list_all (\<lambda>t. t = s \<or> chunk16 u t = 0) shifts"

definition onlyChunkClear :: "int \<Rightarrow> nat list \<Rightarrow> nat \<Rightarrow> bool" where
  "onlyChunkClear u shifts s =
    (chunk16 u s = 0 \<and> list_all (\<lambda>t. t = s \<or> chunk16 u t = 0xFFFF) shifts)"

text \<open>The operand record of \<open>mov xd, #imm\<close>.\<close>

definition movImm :: "reg \<Rightarrow> int \<Rightarrow> parsed" where
  "movImm d imm = (noOperands ''mov'' ''mov d, #imm'')\<lparr>dest := Some d, immediate := Some imm\<rparr>"

section \<open>Memory regions and validation\<close>

lemma accessInRegion_iff:
  "0 < sz \<Longrightarrow>
    accessInRegion r addr sz \<longleftrightarrow> rstart r \<le> addr \<and> addr + (int sz - 1) \<le> rend r"
proof
  assume sz: "0 < sz" and a: "accessInRegion r addr sz"
  from a have all: "\<And>i. i < sz \<Longrightarrow> rstart r \<le> addr + int i \<and> addr + int i \<le> rend r"
    unfolding accessInRegion_def list_all_iff by simp
  from all [of 0] all [of "sz - 1"] sz
  show "rstart r \<le> addr \<and> addr + (int sz - 1) \<le> rend r"
    by simp
next
  assume "0 < sz" and "rstart r \<le> addr \<and> addr + (int sz - 1) \<le> rend r"
  then show "accessInRegion r addr sz"
    unfolding accessInRegion_def list_all_iff by auto
qed

lemma inOneRegion_iff:
  assumes "0 < sz"
  shows "inOneRegion addr sz \<longleftrightarrow>
     (0x00100000 \<le> addr \<and> addr + (int sz - 1) \<le> 0x001FFFFF) \<or>
     (0x00200000 \<le> addr \<and> addr + (int sz - 1) \<le> 0x002FFFFF) \<or>
     (0x00300000 \<le> addr \<and> addr + (int sz - 1) \<le> 0x003FFFFF) \<or>
     (0x00400000 \<le> addr \<and> addr + (int sz - 1) \<le> 0x07FEFFFF) \<or>
     (0x07FF0000 \<le> addr \<and> addr + (int sz - 1) \<le> 0x07FFFFFF)"
  unfolding inOneRegion_def memoryLayout_def
  by (simp add: accessInRegion_iff [OF assms])

lemma getMemoryRegion_cases:
  "getMemoryRegion addr =
    (if 0x00100000 \<le> addr \<and> addr \<le> 0x001FFFFF then Some (memoryLayout ! 0)
     else if 0x00200000 \<le> addr \<and> addr \<le> 0x002FFFFF then Some (memoryLayout ! 1)
     else if 0x00300000 \<le> addr \<and> addr \<le> 0x003FFFFF then Some (memoryLayout ! 2)
     else if 0x00400000 \<le> addr \<and> addr \<le> 0x07FEFFFF then Some (memoryLayout ! 3)
     else if 0x07FF0000 \<le> addr \<and> addr \<le> 0x07FFFFFF then Some (memoryLayout ! 4)
     else None)"
  by (simp add: getMemoryRegion_def memoryLayout_def)

lemma getMemoryRegion_Some:
  "getMemoryRegion addr = Some r \<Longrightarrow>
    r \<in> set memoryLayout \<and> rstart r \<le> addr \<and> addr \<le> rend r"
  unfolding getMemoryRegion_def by (auto simp: find_Some_iff)

lemma validateInitWrite_Inr:
  assumes "validateInitWrite addr sz = Inr r" and "0 < sz"
  shows "inOneRegion addr sz"
proof -
  from assms(1) have g: "getMemoryRegion addr = Some r"
    and e: "\<not> addr + (int sz - 1) > rend r"
    unfolding validateInitWrite_def
    by (simp_all split: if_splits option.splits)
  from getMemoryRegion_Some [OF g] e have "r \<in> set memoryLayout" "accessInRegion r addr sz"
    by (simp_all add: accessInRegion_iff [OF assms(2)])
  then show ?thesis
    unfolding inOneRegion_def list_ex_iff by blast
qed

lemma validateMemoryAccess_Inr:
  assumes "validateMemoryAccess s addr sz w = Inr r" and "0 < sz"
  shows "inOneRegion addr sz"
proof -
  from assms(1) have g: "getMemoryRegion addr = Some r"
    and e: "\<not> addr + (int sz - 1) > rend r"
    unfolding validateMemoryAccess_def Let_def
    by (simp_all split: if_splits option.splits)
  from getMemoryRegion_Some [OF g] e have "r \<in> set memoryLayout" "accessInRegion r addr sz"
    by (simp_all add: accessInRegion_iff [OF assms(2)])
  then show ?thesis
    unfolding inOneRegion_def list_ex_iff by blast
qed

lemma validateMemoryAccess_outside:
  assumes "\<not> inOneRegion addr sz" and "0 < sz"
  shows "\<exists>e. validateMemoryAccess s addr sz w = Inl e"
proof (cases "validateMemoryAccess s addr sz w")
  case (Inl e)
  then show ?thesis by blast
next
  case (Inr r)
  from validateMemoryAccess_Inr [OF Inr assms(2)] assms(1) show ?thesis by simp
qed

lemma validateInitWrite_outside:
  assumes "\<not> inOneRegion addr sz" and "0 < sz"
  shows "\<exists>e. validateInitWrite addr sz = Inl e"
proof (cases "validateInitWrite addr sz")
  case (Inl e)
  then show ?thesis by blast
next
  case (Inr r)
  from validateInitWrite_Inr [OF Inr assms(2)] assms(1) show ?thesis by simp
qed

lemma validate_read_inside:
  assumes "inOneRegion addr sz" "0 < sz"
  shows "\<exists>r. validateMemoryAccess s addr sz False = Inr r"
proof -
  from assms consider
      (a) "0x00100000 \<le> addr \<and> addr + (int sz - 1) \<le> 0x001FFFFF"
    | (b) "0x00200000 \<le> addr \<and> addr + (int sz - 1) \<le> 0x002FFFFF"
    | (c) "0x00300000 \<le> addr \<and> addr + (int sz - 1) \<le> 0x003FFFFF"
    | (d) "0x00400000 \<le> addr \<and> addr + (int sz - 1) \<le> 0x07FEFFFF"
    | (e) "0x07FF0000 \<le> addr \<and> addr + (int sz - 1) \<le> 0x07FFFFFF"
    unfolding inOneRegion_iff [OF assms(2)] by blast
  then show ?thesis
  proof cases
    case a
    with assms(2) have "getMemoryRegion addr = Some (memoryLayout ! 0)"
      unfolding getMemoryRegion_cases by simp
    with a assms(2) show ?thesis
      unfolding validateMemoryAccess_def by (simp add: memoryLayout_def)
  next
    case b
    with assms(2) have "getMemoryRegion addr = Some (memoryLayout ! 1)"
      unfolding getMemoryRegion_cases by simp
    with b assms(2) show ?thesis
      unfolding validateMemoryAccess_def by (simp add: memoryLayout_def)
  next
    case c
    with assms(2) have "getMemoryRegion addr = Some (memoryLayout ! 2)"
      unfolding getMemoryRegion_cases by simp
    with c assms(2) show ?thesis
      unfolding validateMemoryAccess_def by (simp add: memoryLayout_def)
  next
    case d
    with assms(2) have "getMemoryRegion addr = Some (memoryLayout ! 3)"
      unfolding getMemoryRegion_cases by simp
    with d assms(2) show ?thesis
      unfolding validateMemoryAccess_def by (simp add: memoryLayout_def)
  next
    case e
    with assms(2) have "getMemoryRegion addr = Some (memoryLayout ! 4)"
      unfolding getMemoryRegion_cases by simp
    with e assms(2) show ?thesis
      unfolding validateMemoryAccess_def by (simp add: memoryLayout_def)
  qed
qed

lemma writeMemory_failure_keeps_state:
  "fst (writeMemory s addr v sz skip) \<noteq> None \<Longrightarrow> snd (writeMemory s addr v sz skip) = s"
  by (cases skip; cases "validateMemoryAccess s addr sz True"; cases "validateInitWrite addr sz")
     (simp_all add: writeMemory_def)

text \<open>
  Claim C6. An access of 1, 2, 4 or 8 bytes whose byte range does not lie entirely within
  one of the five regions (so also one that touches the zero page or crosses a region
  boundary) is rejected, as a validation, as a read, and as a write with or without the
  read-only check; and a write that fails, for whatever reason, leaves the simulator's
  memory as it was.
\<close>

theorem access_outside_one_region_fails:
  assumes "sz \<in> {1, 2, 4, 8}"
  shows "(\<not> inOneRegion addr sz \<longrightarrow>
            (\<exists>e. validateMemoryAccess s addr sz isWrite = Inl e)
          \<and> (\<exists>e. readMemory s addr sz = Inl e)
          \<and> (\<exists>e. writeMemory s addr v sz skip = (Some e, s)))
       \<and> (fst (writeMemory s addr v sz skip) \<noteq> None \<longrightarrow>
            memory (snd (writeMemory s addr v sz skip)) = memory s)"
proof -
  from assms have pos: "0 < sz" by auto
  have out: "(\<exists>e. validateMemoryAccess s addr sz isWrite = Inl e)
          \<and> (\<exists>e. readMemory s addr sz = Inl e)
          \<and> (\<exists>e. writeMemory s addr v sz skip = (Some e, s))" if no: "\<not> inOneRegion addr sz"
  proof -
    from validateMemoryAccess_outside [OF no pos] obtain e1 where
      e1: "validateMemoryAccess s addr sz isWrite = Inl e1" by blast
    from validateMemoryAccess_outside [OF no pos] obtain e2 where
      e2: "validateMemoryAccess s addr sz False = Inl e2" by blast
    from validateMemoryAccess_outside [OF no pos] obtain e3 where
      e3: "validateMemoryAccess s addr sz True = Inl e3" by blast
    from validateInitWrite_outside [OF no pos] obtain e4 where
      e4: "validateInitWrite addr sz = Inl e4" by blast
    have "\<exists>e. readMemory s addr sz = Inl e"
      unfolding readMemory_def using e2 by simp
    moreover have "\<exists>e. writeMemory s addr v sz skip = (Some e, s)"
      unfolding writeMemory_def using e3 e4 by (cases skip) simp_all
    ultimately show ?thesis using e1 by blast
  qed
  from out writeMemory_failure_keeps_state [of s addr v sz skip] show ?thesis
    by simp
qed

theorem access_outside_one_region_fails_witness:
  "(8::nat) \<in> {1, 2, 4, 8} \<and> \<not> inOneRegion 0x001FFFFC 8
   \<and> (\<exists>e. validateMemoryAccess reset 0x001FFFFC 8 True = Inl e)
   \<and> (\<exists>e. readMemory reset 0x001FFFFC 8 = Inl e)
   \<and> (\<exists>e. writeMemory reset 0x001FFFFC 5 8 True = (Some e, reset))
   \<and> fst (writeMemory reset 0x001FFFFC 5 8 True) \<noteq> None
   \<and> memory (snd (writeMemory reset 0x001FFFFC 5 8 True)) = memory reset"
proof -
  have sz: "(8::nat) \<in> {1, 2, 4, 8}" by simp
  have no: "\<not> inOneRegion 0x001FFFFC 8"
    by (simp add: inOneRegion_iff)
  from access_outside_one_region_fails [OF sz, of "0x001FFFFC" reset True 5 True] no
  show ?thesis by auto
qed

section \<open>Unwritten memory\<close>

lemma loadBytes_unwritten:
  assumes "\<forall>i < sz. m (addr + int i) = None"
  shows "loadBytes m addr sz = 0"
proof -
  have "fold (\<lambda>i v. v OR push_bit (i * 8) (case m (addr + int i) of None \<Rightarrow> 0 | Some b \<Rightarrow> b)) is v = v"
    if "\<forall>i \<in> set is. m (addr + int i) = None" for "is" :: "nat list" and v :: int
    using that by (induction "is" arbitrary: v) simp_all
  from this [of "[0..<sz]" 0] assms show ?thesis
    unfolding loadBytes_def by simp
qed

text \<open>
  Claim C9. A read of \<open>sz\<close> bytes (\<open>sz > 0\<close>) that lies within one region, none of whose
  bytes has been written (no key of the memory map), returns 0, whatever the region; in
  particular every such read of the memory of a freshly reset simulator returns 0.
\<close>

theorem readMemory_unwritten_is_zero:
  assumes "inOneRegion addr sz" and "0 < sz"
    and "\<forall>i < sz. memory s (addr + int i) = None"
  shows "readMemory s addr sz = Inr 0"
proof -
  from validate_read_inside [OF assms(1,2)] obtain r where
    "validateMemoryAccess s addr sz False = Inr r" by blast
  with loadBytes_unwritten [OF assms(3)] show ?thesis
    unfolding readMemory_def by simp
qed

theorem readMemory_unwritten_is_zero_witness:
  "inOneRegion 0x00400000 8 \<and> (0::nat) < 8 \<and> memory reset = Map.empty
   \<and> readMemory reset 0x00400000 8 = Inr 0"
proof -
  have a: "inOneRegion 0x00400000 8" by (simp add: inOneRegion_iff)
  have b: "(0::nat) < 8" by simp
  have c: "\<forall>i < 8. memory reset (0x00400000 + int i) = None" by (simp add: reset_def)
  have d: "memory reset = Map.empty" by (simp add: reset_def)
  from readMemory_unwritten_is_zero [OF a b c] a b d show ?thesis by blast
qed

section \<open>The 32-bit register view\<close>

text \<open>
  Claim C7. Writing the \<open>w\<close> view of register \<open>n\<close> stores the low 32 bits of the value,
  zero-extended, in the 64-bit register (and touches no other register); reading the
  \<open>w\<close> view yields the low 32 bits of the stored register with bit 31 copied into bits
  32 to 63.
\<close>

theorem w_view_write_zero_extends_read_sign_extends:
  "xregs (setRegisterValue s (Some (W n)) v) n = take_bit 32 v
   \<and> (\<forall>k. k \<noteq> n \<longrightarrow> xregs (setRegisterValue s (Some (W n)) v) k = xregs s k)
   \<and> (\<forall>k. bit (getRegisterValue s (Some (W n))) k \<longleftrightarrow>
            (if k < 32 then bit (xregs s n) k else k < 64 \<and> bit (xregs s n) 31))"
proof -
  have m32: "(0xFFFFFFFF::int) = mask 32" by (simp add: mask_eq_exp_minus_1)
  have hi: "(0xFFFFFFFF00000000::int) = push_bit 32 (mask 32)"
    by (simp add: mask_eq_exp_minus_1 push_bit_eq_mult)
  have w: "xregs (setRegisterValue s (Some (W n)) v) n = take_bit 32 v"
    unfolding setRegisterValue_def by (simp add: m32 take_bit_eq_mask)
  have o: "\<forall>k. k \<noteq> n \<longrightarrow> xregs (setRegisterValue s (Some (W n)) v) k = xregs s k"
    unfolding setRegisterValue_def by (simp add: Let_def)
  have sgn: "(xregs s n AND mask 32) AND 0x80000000 \<noteq> 0 \<longleftrightarrow> bit (xregs s n) 31"
    using and_exp_eq_0_iff_not_bit [of "xregs s n AND mask 32" 31] by (simp add: bit_simps)
  have r: "bit (getRegisterValue s (Some (W n))) k \<longleftrightarrow>
            (if k < 32 then bit (xregs s n) k else k < 64 \<and> bit (xregs s n) 31)" for k
    unfolding getRegisterValue_def Let_def m32 hi
    by (auto simp: sgn bit_simps)
  from w o r show ?thesis by blast
qed

theorem w_view_write_zero_extends_read_sign_extends_witness:
  "xregs (setRegisterValue reset (Some (W 3)) (-1)) 3 = 0xFFFFFFFF
   \<and> (4::nat) \<noteq> 3 \<and> xregs (setRegisterValue reset (Some (W 3)) (-1)) 4 = xregs reset 4
   \<and> getRegisterValue (setRegisterValue reset (Some (W 3)) (-1)) (Some (W 3))
       = 0xFFFFFFFFFFFFFFFF"
proof -
  from w_view_write_zero_extends_read_sign_extends [of reset 3 "-1"]
  have "xregs (setRegisterValue reset (Some (W 3)) (-1)) 3 = take_bit 32 (-1)" by blast
  then have x: "xregs (setRegisterValue reset (Some (W 3)) (-1)) 3 = 0xFFFFFFFF"
    by (simp add: mask_eq_exp_minus_1)
  moreover from w_view_write_zero_extends_read_sign_extends [of reset 3 "-1"]
  have "xregs (setRegisterValue reset (Some (W 3)) (-1)) 4 = xregs reset 4" by simp
  ultimately show ?thesis
    by (simp add: getRegisterValue_def)
qed

section \<open>The initial stack pointer\<close>

lemma sp_reset: "sp reset = 0x08000000"
  by (simp add: reset_def initialSp_def stackRegion_def memoryLayout_def)





section \<open>Flags of \<open>adds\<close>, \<open>subs\<close>, \<open>cmp\<close> and \<open>cmn\<close>\<close>

lemma mask64: "(0xFFFFFFFFFFFFFFFF::int) = mask 64"
  by (simp add: mask_eq_exp_minus_1)

lemma mask32: "(0xFFFFFFFF::int) = mask 32"
  by (simp add: mask_eq_exp_minus_1)

lemma setArithmeticFlags_flags:
  "flagN (setArithmeticFlags s0 operation (mask w) (push_bit (w - 1) 1) a b r) = bit r (w - 1)"
  "flagZ (setArithmeticFlags s0 operation (mask w) (push_bit (w - 1) 1) a b r) = (take_bit w r = 0)"
  "flagC (setArithmeticFlags s0 AddOp (mask w) (push_bit (w - 1) 1) a b r) = (r < a)"
  "flagC (setArithmeticFlags s0 SubOp (mask w) (push_bit (w - 1) 1) a b r) = (a \<ge> b)"
  "flagV (setArithmeticFlags s0 AddOp (mask w) (push_bit (w - 1) 1) a b r)
     = (bit a (w - 1) = bit b (w - 1) \<and> bit r (w - 1) \<noteq> bit a (w - 1))"
  "flagV (setArithmeticFlags s0 SubOp (mask w) (push_bit (w - 1) 1) a b r)
     = (bit a (w - 1) \<noteq> bit b (w - 1) \<and> bit r (w - 1) \<noteq> bit a (w - 1))"
  unfolding setArithmeticFlags_def Let_def
  by (simp_all add: and_exp_eq_0_iff_not_bit take_bit_eq_mask)

lemma executeArithmeticWithFlags_Inr:
  assumes "executeArithmeticWithFlags s p operation writeResult = Inr s'"
  shows "\<exists>s0. s' = setArithmeticFlags s0 operation (mask (operandWidth p))
                  (push_bit (operandWidth p - 1) 1)
                  (take_bit (operandWidth p) (getRegisterValue s (src1 p)))
                  (take_bit (operandWidth p) (secondOperand s p))
                  (take_bit (operandWidth p)
                     (case operation of
                        AddOp \<Rightarrow> take_bit (operandWidth p) (getRegisterValue s (src1 p))
                                 + take_bit (operandWidth p) (secondOperand s p)
                      | SubOp \<Rightarrow> take_bit (operandWidth p) (getRegisterValue s (src1 p))
                                 - take_bit (operandWidth p) (secondOperand s p)))"
proof -
  have add_eq: "(x + y) AND mask w = take_bit w (take_bit w x + take_bit w y)" for x y :: int and w
    by (simp add: take_bit_eq_mask [symmetric] take_bit_add)
  have sub_eq: "(x - y) AND mask w = take_bit w (take_bit w x - take_bit w y)" for x y :: int and w
    by (simp add: take_bit_eq_mask [symmetric] take_bit_diff)
  show ?thesis
  proof (cases "isW (src1 p)")
    case True
    with assms show ?thesis
      unfolding executeArithmeticWithFlags_def secondOperand_def operandWidth_def Let_def
      by (cases operation)
         (auto simp: mask32 add_eq sub_eq take_bit_eq_mask [symmetric] take_bit_add take_bit_diff
               split: if_splits option.splits)
  next
    case False
    with assms show ?thesis
      unfolding executeArithmeticWithFlags_def secondOperand_def operandWidth_def Let_def
      by (cases operation)
         (auto simp: mask64 add_eq sub_eq take_bit_eq_mask [symmetric] take_bit_add take_bit_diff
               split: if_splits option.splits)
  qed
qed

lemma add_wraps_iff:
  fixes a b :: int
  assumes "0 \<le> a" "a < 2 ^ w" "0 \<le> b" "b < 2 ^ w"
  shows "take_bit w (a + b) < a \<longleftrightarrow> 2 ^ w \<le> a + b"
proof (cases "a + b < 2 ^ w")
  case True
  with assms have "take_bit w (a + b) = a + b"
    by (simp add: take_bit_int_eq_self)
  with True assms show ?thesis by simp
next
  case False
  with assms have "(a + b) mod 2 ^ w = a + b - 2 ^ w"
    by (intro int_mod_pos_eq [of _ _ 1]) simp_all
  then have "take_bit w (a + b) = a + b - 2 ^ w"
    by (simp add: take_bit_eq_mod)
  with False assms show ?thesis by simp
qed

text \<open>
  Claim C1. Whenever \<open>adds\<close>, \<open>subs\<close>, \<open>cmn\<close> or \<open>cmp\<close> executes (returns a state), with
  \<open>w\<close> the operand width it chose, \<open>a\<close> and \<open>b\<close> the operands masked to \<open>w\<close> bits and
  \<open>r\<close> the sum or difference masked to \<open>w\<close> bits: N is bit \<open>w - 1\<close> of \<open>r\<close>; Z holds
  iff \<open>r = 0\<close>; for an addition C holds iff \<open>r < a\<close>, which is the case exactly when the
  unsigned sum does not fit in \<open>w\<close> bits, and V holds iff \<open>a\<close> and \<open>b\<close> have the same
  sign bit and that of \<open>r\<close> differs; for a subtraction C holds iff \<open>a \<ge> b\<close> and V holds
  iff \<open>a\<close> and \<open>b\<close> have different sign bits and that of \<open>r\<close> differs from that of \<open>a\<close>.
  The witness runs \<open>cmp x0, x1\<close> with \<open>x0 = 5\<close> and \<open>x1 = 10\<close>: N is set and Z, C and V
  are clear.
\<close>

theorem arithmetic_flags_nzcv:
  assumes "executeArithmeticWithFlags s p operation writeResult = Inr s'"
  shows "(let w = operandWidth p;
              a = take_bit w (getRegisterValue s (src1 p));
              b = take_bit w (secondOperand s p);
              r = take_bit w (case operation of AddOp \<Rightarrow> a + b | SubOp \<Rightarrow> a - b)
          in (flagN s' = bit r (w - 1))
           \<and> (flagZ s' = (r = 0))
           \<and> (case operation of
                 AddOp \<Rightarrow> (flagC s' = (r < a)) \<and> (flagC s' = (2 ^ w \<le> a + b))
                        \<and> (flagV s' = (bit a (w - 1) = bit b (w - 1) \<and> bit r (w - 1) \<noteq> bit a (w - 1)))
               | SubOp \<Rightarrow> (flagC s' = (a \<ge> b))
                        \<and> (flagV s' = (bit a (w - 1) \<noteq> bit b (w - 1) \<and> bit r (w - 1) \<noteq> bit a (w - 1)))))"
proof -
  define w where "w = operandWidth p"
  define a where "a = take_bit w (getRegisterValue s (src1 p))"
  define b where "b = take_bit w (secondOperand s p)"
  define r where "r = take_bit w (case operation of AddOp \<Rightarrow> a + b | SubOp \<Rightarrow> a - b)"
  from executeArithmeticWithFlags_Inr [OF assms] obtain s0 where
    s': "s' = setArithmeticFlags s0 operation (mask w) (push_bit (w - 1) 1) a b r"
    unfolding w_def a_def b_def r_def by blast
  have rr: "take_bit w r = r" unfolding r_def by simp
  have bounds: "0 \<le> a" "a < 2 ^ w" "0 \<le> b" "b < 2 ^ w"
    unfolding a_def b_def by simp_all
  have n: "flagN s' = bit r (w - 1)"
    by (simp only: s' setArithmeticFlags_flags)
  have "flagZ s' = (take_bit w r = 0)"
    by (simp only: s' setArithmeticFlags_flags)
  then have z: "flagZ s' = (r = 0)"
    by (simp only: rr)
  have rest: "(case operation of
                 AddOp \<Rightarrow> (flagC s' = (r < a)) \<and> (flagC s' = (2 ^ w \<le> a + b))
                        \<and> (flagV s' = (bit a (w - 1) = bit b (w - 1) \<and> bit r (w - 1) \<noteq> bit a (w - 1)))
               | SubOp \<Rightarrow> (flagC s' = (a \<ge> b))
                        \<and> (flagV s' = (bit a (w - 1) \<noteq> bit b (w - 1) \<and> bit r (w - 1) \<noteq> bit a (w - 1))))"
  proof (cases operation)
    case AddOp
    then have "r = take_bit w (a + b)" unfolding r_def by simp
    with add_wraps_iff [OF bounds] have "(r < a) = (2 ^ w \<le> a + b)" by simp
    moreover have "flagC s' = (r < a)"
      by (simp only: s' AddOp setArithmeticFlags_flags)
    moreover have "flagV s' = (bit a (w - 1) = bit b (w - 1) \<and> bit r (w - 1) \<noteq> bit a (w - 1))"
      by (simp only: s' AddOp setArithmeticFlags_flags)
    ultimately show ?thesis
      using AddOp by simp
  next
    case SubOp
    have "flagC s' = (a \<ge> b)"
      by (simp only: s' SubOp setArithmeticFlags_flags)
    moreover have "flagV s' = (bit a (w - 1) \<noteq> bit b (w - 1) \<and> bit r (w - 1) \<noteq> bit a (w - 1))"
      by (simp only: s' SubOp setArithmeticFlags_flags)
    ultimately show ?thesis
      using SubOp by simp
  qed
  from n z rest show ?thesis
    unfolding Let_def w_def [symmetric] a_def [symmetric] b_def [symmetric] r_def [symmetric]
    by simp
qed

theorem arithmetic_flags_nzcv_witness:
  "\<exists>s'. executeArithmeticWithFlags (reset\<lparr>xregs := (\<lambda>n. if n = 0 then 5 else if n = 1 then 10 else 0)\<rparr>)
           ((noOperands ''cmp'' ''cmp x0, x1'')\<lparr>src1 := Some (X 0), src2 := Some (X 1)\<rparr>)
           SubOp False = Inr s'
      \<and> flagN s' \<and> \<not> flagZ s' \<and> \<not> flagC s' \<and> \<not> flagV s'"
proof -
  let ?s = "reset\<lparr>xregs := (\<lambda>n. if n = 0 then 5 else if n = 1 then 10 else 0)\<rparr>"
  let ?p = "(noOperands ''cmp'' ''cmp x0, x1'')\<lparr>src1 := Some (X 0), src2 := Some (X 1)\<rparr>"
  have "\<exists>s'. executeArithmeticWithFlags ?s ?p SubOp False = Inr s'"
    unfolding executeArithmeticWithFlags_def by (simp add: noOperands_def Let_def)
  then obtain s' where run: "executeArithmeticWithFlags ?s ?p SubOp False = Inr s'"
    by blast
  have w: "operandWidth ?p = 64" by (simp add: operandWidth_def isW_def noOperands_def)
  have a: "take_bit 64 (getRegisterValue ?s (src1 ?p)) = 5"
    by (simp add: getRegisterValue_def noOperands_def take_bit_eq_mod)
  have b: "take_bit 64 (secondOperand ?s ?p) = 10"
    by (simp add: secondOperand_def getRegisterValue_def noOperands_def take_bit_eq_mod)
  have r: "take_bit 64 (5 - 10 :: int) = 18446744073709551611"
    by (simp add: take_bit_eq_mod)
  have b63: "bit (18446744073709551611 :: int) 63" "\<not> bit (5 :: int) 63" "\<not> bit (10 :: int) 63"
    by (simp_all add: bit_iff_odd)
  from arithmetic_flags_nzcv [OF run]
  have "flagN s' \<and> \<not> flagZ s' \<and> \<not> flagC s' \<and> \<not> flagV s'"
    unfolding Let_def w a b by (simp add: r b63)
  with run show ?thesis by blast
qed

section \<open>Operand width and written value\<close>

lemma setArithmeticFlags_regs:
  "xregs (setArithmeticFlags s0 operation msk signMask a b r) = xregs s0"
  "sp (setArithmeticFlags s0 operation msk signMask a b r) = sp s0"
  "pc (setArithmeticFlags s0 operation msk signMask a b r) = pc s0"
  by (simp_all add: setArithmeticFlags_def Let_def)

lemma masked_sum: "(take_bit w x + take_bit w y) AND mask w = take_bit w (x + y)" for x y :: int
  by (simp add: take_bit_eq_mask [symmetric] take_bit_add)

lemma masked_diff: "(take_bit w x - take_bit w y) AND mask w = take_bit w (x - y)" for x y :: int
  by (simp add: take_bit_eq_mask [symmetric] take_bit_diff)

lemma writes_masked_result:
  assumes "executeArithmeticWithFlags s p operation True = Inr s'"
    and "dest p = Some d" and "d \<noteq> SP"
  shows "s' = setArithmeticFlags
               (setRegisterValue s (Some d)
                  (take_bit (if isW (src1 p) then 32 else 64)
                     (case operation of
                        AddOp \<Rightarrow> getRegisterValue s (src1 p) + secondOperand s p
                      | SubOp \<Rightarrow> getRegisterValue s (src1 p) - secondOperand s p)))
               operation (mask (operandWidth p)) (2 ^ (operandWidth p - 1))
               (take_bit (operandWidth p) (getRegisterValue s (src1 p)))
               (take_bit (operandWidth p) (secondOperand s p))
               (take_bit (operandWidth p)
                  (case operation of
                     AddOp \<Rightarrow> getRegisterValue s (src1 p) + secondOperand s p
                   | SubOp \<Rightarrow> getRegisterValue s (src1 p) - secondOperand s p))"
proof (cases "isW (src1 p)")
  case True
  with assms show ?thesis
    unfolding executeArithmeticWithFlags_def secondOperand_def operandWidth_def Let_def
    by (cases operation)
       (auto simp: mask32 isStackOp_def take_bit_eq_mask [symmetric] masked_sum masked_diff
             take_bit_add take_bit_diff split: if_splits option.splits)
next
  case False
  with assms show ?thesis
    unfolding executeArithmeticWithFlags_def secondOperand_def operandWidth_def Let_def
    by (cases operation)
       (auto simp: mask64 isStackOp_def take_bit_eq_mask [symmetric] masked_sum masked_diff
             take_bit_add take_bit_diff split: if_splits option.splits)
qed

text \<open>
  Claim C3, as amended. \<open>adds\<close>, \<open>subs\<close>, \<open>cmn\<close> and \<open>cmp\<close> operate at the width
  \<open>w\<close> of 32 bits if the first source register is a \<open>w\<close> view and of 64 bits otherwise,
  whatever the view of the second operand. Whenever one of them executes, with \<open>v\<close> the
  sum or difference of the operand values: N is bit \<open>w - 1\<close> of \<open>v\<close>, Z holds iff the
  low \<open>w\<close> bits of \<open>v\<close> are zero, C is the carry out of (for a subtraction: the
  absence of a borrow in) the operands masked to \<open>w\<close> bits, and V is the signed
  overflow read off bit \<open>w - 1\<close> of the operands and of \<open>v\<close>. When \<open>adds\<close> or \<open>subs\<close>
  writes an \<open>x\<close> destination, the register receives \<open>v\<close> masked to \<open>w\<close> bits; a
  \<open>w\<close> destination receives the low 32 bits of \<open>v\<close>. \<open>cmn\<close> and \<open>cmp\<close> write no
  register. The witness runs \<open>adds x0, x1, #1\<close>, \<open>subs w0, w1, #1\<close>, and the comparisons
  \<open>cmp x1, w2\<close> with \<open>x1 = 0x100000000\<close>, \<open>x2 = 0\<close> (64 bits: Z clear) and
  \<open>cmp w1, x2\<close> with \<open>x1 = 0\<close>, \<open>x2 = 0x100000000\<close> (32 bits: Z set).
\<close>

theorem flag_setting_arithmetic_width_and_result:
  assumes "executeArithmeticWithFlags s p operation writeResult = Inr s'"
  shows "(let w = (if isW (src1 p) then 32 else 64 :: nat);
              a = take_bit w (getRegisterValue s (src1 p));
              b = take_bit w (secondOperand s p);
              v = (case operation of
                     AddOp \<Rightarrow> getRegisterValue s (src1 p) + secondOperand s p
                   | SubOp \<Rightarrow> getRegisterValue s (src1 p) - secondOperand s p)
          in (flagN s' = bit v (w - 1))
           \<and> (flagZ s' = (take_bit w v = 0))
           \<and> (flagC s' = (case operation of AddOp \<Rightarrow> 2 ^ w \<le> a + b | SubOp \<Rightarrow> b \<le> a))
           \<and> (flagV s' = (case operation of
                           AddOp \<Rightarrow> bit a (w - 1) = bit b (w - 1) \<and> bit v (w - 1) \<noteq> bit a (w - 1)
                         | SubOp \<Rightarrow> bit a (w - 1) \<noteq> bit b (w - 1) \<and> bit v (w - 1) \<noteq> bit a (w - 1)))
           \<and> (writeResult \<and> dest p = Some (X n) \<longrightarrow> xregs s' n = take_bit w v)
           \<and> (writeResult \<and> dest p = Some (W n) \<longrightarrow> xregs s' n = take_bit 32 v)
           \<and> (\<not> writeResult \<longrightarrow> xregs s' = xregs s \<and> sp s' = sp s \<and> pc s' = pc s))"
proof -
  define w where "w = operandWidth p"
  define a where "a = take_bit w (getRegisterValue s (src1 p))"
  define b where "b = take_bit w (secondOperand s p)"
  define v where "v = (case operation of
                     AddOp \<Rightarrow> getRegisterValue s (src1 p) + secondOperand s p
                   | SubOp \<Rightarrow> getRegisterValue s (src1 p) - secondOperand s p)"
  define r where "r = take_bit w (case operation of AddOp \<Rightarrow> a + b | SubOp \<Rightarrow> a - b)"
  have w_eq: "(if isW (src1 p) then 32 else 64 :: nat) = w"
    by (simp add: w_def operandWidth_def)
  have wpos: "w - 1 < w" by (simp add: w_def operandWidth_def)
  from executeArithmeticWithFlags_Inr [OF assms] obtain s0 where
    s': "s' = setArithmeticFlags s0 operation (mask w) (push_bit (w - 1) 1) a b r"
    unfolding w_def a_def b_def r_def by blast
  have rv: "r = take_bit w v"
    unfolding r_def v_def a_def b_def
    by (cases operation) (simp_all add: take_bit_add take_bit_diff)
  have bounds: "0 \<le> a" "a < 2 ^ w" "0 \<le> b" "b < 2 ^ w"
    unfolding a_def b_def by simp_all
  have "flagN s' = bit r (w - 1)"
    by (simp only: s' setArithmeticFlags_flags)
  with wpos have n: "flagN s' = bit v (w - 1)"
    by (simp add: rv bit_take_bit_iff)
  have "flagZ s' = (take_bit w r = 0)"
    by (simp only: s' setArithmeticFlags_flags)
  then have z: "flagZ s' = (take_bit w v = 0)"
    by (simp add: rv)
  have c: "flagC s' = (case operation of AddOp \<Rightarrow> 2 ^ w \<le> a + b | SubOp \<Rightarrow> b \<le> a)"
  proof (cases operation)
    case AddOp
    then have "r = take_bit w (a + b)" unfolding r_def by simp
    with add_wraps_iff [OF bounds] have "(r < a) = (2 ^ w \<le> a + b)" by simp
    moreover have "flagC s' = (r < a)"
      by (simp only: s' AddOp setArithmeticFlags_flags)
    ultimately show ?thesis using AddOp by simp
  next
    case SubOp
    have "flagC s' = (a \<ge> b)"
      by (simp only: s' SubOp setArithmeticFlags_flags)
    then show ?thesis using SubOp by simp
  qed
  have rb: "bit r (w - 1) = bit v (w - 1)"
    using wpos by (simp add: rv bit_take_bit_iff)
  have o: "flagV s' = (case operation of
                           AddOp \<Rightarrow> bit a (w - 1) = bit b (w - 1) \<and> bit v (w - 1) \<noteq> bit a (w - 1)
                         | SubOp \<Rightarrow> bit a (w - 1) \<noteq> bit b (w - 1) \<and> bit v (w - 1) \<noteq> bit a (w - 1))"
  proof (cases operation)
    case AddOp
    have "flagV s' = (bit a (w - 1) = bit b (w - 1) \<and> bit r (w - 1) \<noteq> bit a (w - 1))"
      by (simp only: s' AddOp setArithmeticFlags_flags)
    then show ?thesis using AddOp rb by simp
  next
    case SubOp
    have "flagV s' = (bit a (w - 1) \<noteq> bit b (w - 1) \<and> bit r (w - 1) \<noteq> bit a (w - 1))"
      by (simp only: s' SubOp setArithmeticFlags_flags)
    then show ?thesis using SubOp rb by simp
  qed
  have x: "xregs s' n = take_bit w v" if "writeResult \<and> dest p = Some (X n)"
  proof -
    from that assms have "executeArithmeticWithFlags s p operation True = Inr s'" by simp
    from writes_masked_result [OF this, of "X n"] that show ?thesis
      by (simp add: setArithmeticFlags_regs setRegisterValue_def operandWidth_def w_def v_def)
  qed
  have y: "xregs s' n = take_bit 32 v" if "writeResult \<and> dest p = Some (W n)"
  proof -
    from that assms have "executeArithmeticWithFlags s p operation True = Inr s'" by simp
    from writes_masked_result [OF this, of "W n"] that show ?thesis
      by (simp add: setArithmeticFlags_regs setRegisterValue_def mask32 take_bit_eq_mask [symmetric] v_def)
  qed
  have u: "xregs s' = xregs s \<and> sp s' = sp s \<and> pc s' = pc s" if "\<not> writeResult"
    using that assms unfolding executeArithmeticWithFlags_def Let_def
    by (auto simp: setArithmeticFlags_regs split: if_splits option.splits)
  from n z c o x y u show ?thesis
    unfolding Let_def w_eq a_def [symmetric] b_def [symmetric] v_def [symmetric]
    by blast
qed

theorem flag_setting_arithmetic_width_and_result_witness:
  "\<not> isl (executeArithmeticWithFlags (setRegisterValue reset (Some (X 1)) 0xFFFFFFFFFFFFFFFF)
             ((noOperands ''adds'' ''adds x0, x1, #1'')
                \<lparr>dest := Some (X 0), src1 := Some (X 1), immediate := Some 1\<rparr>) AddOp True)
   \<and> xregs (projr (executeArithmeticWithFlags (setRegisterValue reset (Some (X 1)) 0xFFFFFFFFFFFFFFFF)
             ((noOperands ''adds'' ''adds x0, x1, #1'')
                \<lparr>dest := Some (X 0), src1 := Some (X 1), immediate := Some 1\<rparr>) AddOp True)) 0 = 0
   \<and> flagZ (projr (executeArithmeticWithFlags (setRegisterValue reset (Some (X 1)) 0xFFFFFFFFFFFFFFFF)
             ((noOperands ''adds'' ''adds x0, x1, #1'')
                \<lparr>dest := Some (X 0), src1 := Some (X 1), immediate := Some 1\<rparr>) AddOp True))
   \<and> flagC (projr (executeArithmeticWithFlags (setRegisterValue reset (Some (X 1)) 0xFFFFFFFFFFFFFFFF)
             ((noOperands ''adds'' ''adds x0, x1, #1'')
                \<lparr>dest := Some (X 0), src1 := Some (X 1), immediate := Some 1\<rparr>) AddOp True))
   \<and> \<not> isl (executeArithmeticWithFlags (setRegisterValue reset (Some (X 1)) 0xFFFFFFFFFFFFFFFF)
             ((noOperands ''subs'' ''subs w0, w1, #1'')
                \<lparr>dest := Some (W 0), src1 := Some (W 1), immediate := Some 1\<rparr>) SubOp True)
   \<and> xregs (projr (executeArithmeticWithFlags (setRegisterValue reset (Some (X 1)) 0xFFFFFFFFFFFFFFFF)
             ((noOperands ''subs'' ''subs w0, w1, #1'')
                \<lparr>dest := Some (W 0), src1 := Some (W 1), immediate := Some 1\<rparr>) SubOp True)) 0
       = 0xFFFFFFFE
   \<and> flagN (projr (executeArithmeticWithFlags (setRegisterValue reset (Some (X 1)) 0xFFFFFFFFFFFFFFFF)
             ((noOperands ''subs'' ''subs w0, w1, #1'')
                \<lparr>dest := Some (W 0), src1 := Some (W 1), immediate := Some 1\<rparr>) SubOp True))
   \<and> \<not> isl (executeArithmeticWithFlags (setRegisterValue reset (Some (X 1)) 0x100000000)
             ((noOperands ''cmp'' ''cmp x1, w2'')
                \<lparr>src1 := Some (X 1), src2 := Some (W 2)\<rparr>) SubOp False)
   \<and> \<not> flagZ (projr (executeArithmeticWithFlags (setRegisterValue reset (Some (X 1)) 0x100000000)
             ((noOperands ''cmp'' ''cmp x1, w2'')
                \<lparr>src1 := Some (X 1), src2 := Some (W 2)\<rparr>) SubOp False))
   \<and> xregs (projr (executeArithmeticWithFlags (setRegisterValue reset (Some (X 1)) 0x100000000)
             ((noOperands ''cmp'' ''cmp x1, w2'')
                \<lparr>src1 := Some (X 1), src2 := Some (W 2)\<rparr>) SubOp False)) 1
       = 0x100000000
   \<and> \<not> isl (executeArithmeticWithFlags (setRegisterValue reset (Some (X 2)) 0x100000000)
             ((noOperands ''cmp'' ''cmp w1, x2'')
                \<lparr>src1 := Some (W 1), src2 := Some (X 2)\<rparr>) SubOp False)
   \<and> flagZ (projr (executeArithmeticWithFlags (setRegisterValue reset (Some (X 2)) 0x100000000)
             ((noOperands ''cmp'' ''cmp w1, x2'')
                \<lparr>src1 := Some (W 1), src2 := Some (X 2)\<rparr>) SubOp False))"
proof -
  let ?s = "setRegisterValue reset (Some (X 1)) 0xFFFFFFFFFFFFFFFF"
  let ?s1 = "setRegisterValue reset (Some (X 1)) 0x100000000"
  let ?s2 = "setRegisterValue reset (Some (X 2)) 0x100000000"
  let ?p = "(noOperands ''adds'' ''adds x0, x1, #1'')
                \<lparr>dest := Some (X 0), src1 := Some (X 1), immediate := Some 1\<rparr>"
  let ?q = "(noOperands ''subs'' ''subs w0, w1, #1'')
                \<lparr>dest := Some (W 0), src1 := Some (W 1), immediate := Some 1\<rparr>"
  let ?c = "(noOperands ''cmp'' ''cmp x1, w2'')\<lparr>src1 := Some (X 1), src2 := Some (W 2)\<rparr>"
  let ?d = "(noOperands ''cmp'' ''cmp w1, x2'')\<lparr>src1 := Some (W 1), src2 := Some (X 2)\<rparr>"
  have "\<exists>s'. executeArithmeticWithFlags ?s ?p AddOp True = Inr s'"
    unfolding executeArithmeticWithFlags_def
    by (simp add: noOperands_def Let_def isStackOp_def)
  then obtain s' where run: "executeArithmeticWithFlags ?s ?p AddOp True = Inr s'" by blast
  have vp: "getRegisterValue ?s (src1 ?p) + secondOperand ?s ?p = 0x10000000000000000"
    by (simp add: noOperands_def getRegisterValue_def setRegisterValue_def secondOperand_def)
  have ap: "getRegisterValue ?s (src1 ?p) = 0xFFFFFFFFFFFFFFFF" "secondOperand ?s ?p = 1"
    by (simp_all add: noOperands_def getRegisterValue_def setRegisterValue_def secondOperand_def)
  have wp: "\<not> isW (src1 ?p)" "dest ?p = Some (X 0)"
    by (simp_all add: isW_def noOperands_def)
  from flag_setting_arithmetic_width_and_result [OF run, of 0]
  have a: "xregs s' 0 = 0 \<and> flagZ s' \<and> flagC s'"
    unfolding Let_def vp ap
    by (simp add: wp take_bit_eq_mod)
  have "\<exists>t. executeArithmeticWithFlags ?s ?q SubOp True = Inr t"
    unfolding executeArithmeticWithFlags_def
    by (simp add: noOperands_def Let_def isStackOp_def)
  then obtain t where runq: "executeArithmeticWithFlags ?s ?q SubOp True = Inr t" by blast
  have vq: "getRegisterValue ?s (src1 ?q) - secondOperand ?s ?q = 0xFFFFFFFFFFFFFFFE"
    by (simp add: noOperands_def getRegisterValue_def setRegisterValue_def secondOperand_def)
  have wq: "isW (src1 ?q)" "dest ?q = Some (W 0)"
    by (simp_all add: isW_def noOperands_def)
  have b31: "bit (0xFFFFFFFFFFFFFFFE :: int) 31" by (simp add: bit_iff_odd)
  from flag_setting_arithmetic_width_and_result [OF runq, of 0]
  have b: "xregs t 0 = 0xFFFFFFFE \<and> flagN t"
    unfolding Let_def vq
    by (simp add: wq take_bit_eq_mod b31)
  have "\<exists>u. executeArithmeticWithFlags ?s1 ?c SubOp False = Inr u"
    unfolding executeArithmeticWithFlags_def
    by (simp add: noOperands_def Let_def)
  then obtain u where runc: "executeArithmeticWithFlags ?s1 ?c SubOp False = Inr u" by blast
  have vc: "getRegisterValue ?s1 (src1 ?c) - secondOperand ?s1 ?c = 0x100000000"
    by (simp add: noOperands_def getRegisterValue_def setRegisterValue_def secondOperand_def reset_def)
  from flag_setting_arithmetic_width_and_result [OF runc, of 0]
  have "\<not> flagZ u \<and> xregs u = xregs ?s1"
    unfolding Let_def vc
    by (simp add: isW_def noOperands_def take_bit_eq_mod)
  then have c: "\<not> flagZ u \<and> xregs u 1 = 0x100000000"
    by (simp add: setRegisterValue_def)
  have "\<exists>u. executeArithmeticWithFlags ?s2 ?d SubOp False = Inr u"
    unfolding executeArithmeticWithFlags_def
    by (simp add: noOperands_def Let_def)
  then obtain u2 where rund: "executeArithmeticWithFlags ?s2 ?d SubOp False = Inr u2" by blast
  have vd: "getRegisterValue ?s2 (src1 ?d) - secondOperand ?s2 ?d = - 0x100000000"
    by (simp add: noOperands_def getRegisterValue_def setRegisterValue_def secondOperand_def reset_def)
  from flag_setting_arithmetic_width_and_result [OF rund, of 0]
  have d: "flagZ u2"
    unfolding Let_def vd
    by (simp add: isW_def noOperands_def take_bit_eq_mod)
  from run a runq b runc c rund d show ?thesis by simp
qed

text \<open>
  Claim C3 as stated fails. (1) \<open>adds x0, x1, w2\<close> with \<open>x1 = 0x100000000\<close> and
  \<open>x2 = 0\<close>: an operand register is a \<open>w\<close> view, so the stated width is 32 and the stated
  value is 0, but the width is taken from the first source alone and \<open>x0\<close> receives
  \<open>0x100000000\<close>. (2) \<open>add x0, x1, x1\<close> with \<open>x1 = 0x8000000000000000\<close>: \<open>executeAdd\<close>
  does not mask, and \<open>x0\<close> receives \<open>0x10000000000000000\<close>, a value of 65 bits.
\<close>

theorem arithmetic_width_counterexample:
  "specOperandWidth ((noOperands ''adds'' ''adds x0, x1, w2'')
        \<lparr>dest := Some (X 0), src1 := Some (X 1), src2 := Some (W 2)\<rparr>) = 32
   \<and> specArithmeticValue (setRegisterValue reset (Some (X 1)) 0x100000000)
        ((noOperands ''adds'' ''adds x0, x1, w2'')
           \<lparr>dest := Some (X 0), src1 := Some (X 1), src2 := Some (W 2)\<rparr>) AddOp = 0
   \<and> \<not> isl (executeArithmeticWithFlags (setRegisterValue reset (Some (X 1)) 0x100000000)
        ((noOperands ''adds'' ''adds x0, x1, w2'')
           \<lparr>dest := Some (X 0), src1 := Some (X 1), src2 := Some (W 2)\<rparr>) AddOp True)
   \<and> xregs (projr (executeArithmeticWithFlags (setRegisterValue reset (Some (X 1)) 0x100000000)
        ((noOperands ''adds'' ''adds x0, x1, w2'')
           \<lparr>dest := Some (X 0), src1 := Some (X 1), src2 := Some (W 2)\<rparr>) AddOp True)) 0
       = 0x100000000
   \<and> specArithmeticValue (setRegisterValue reset (Some (X 1)) 0x8000000000000000)
        ((noOperands ''add'' ''add x0, x1, x1'')
           \<lparr>dest := Some (X 0), src1 := Some (X 1), src2 := Some (X 1)\<rparr>) AddOp = 0
   \<and> \<not> isl (executeAdd (setRegisterValue reset (Some (X 1)) 0x8000000000000000)
        ((noOperands ''add'' ''add x0, x1, x1'')
           \<lparr>dest := Some (X 0), src1 := Some (X 1), src2 := Some (X 1)\<rparr>))
   \<and> xregs (projr (executeAdd (setRegisterValue reset (Some (X 1)) 0x8000000000000000)
        ((noOperands ''add'' ''add x0, x1, x1'')
           \<lparr>dest := Some (X 0), src1 := Some (X 1), src2 := Some (X 1)\<rparr>))) 0
       = 0x10000000000000000"
  by (simp add: specOperandWidth_def specArithmeticValue_def secondOperand_def
      executeArithmeticWithFlags_def executeAdd_def setArithmeticFlags_def
      noOperands_def isW_def isStackOp_def getRegisterValue_def setRegisterValue_def
      reset_def Let_def take_bit_eq_mod)

lemma mov_encodable_examples:
  "isMovImmediateEncodable 0x100000000 True"
  "isMovImmediateEncodable 0x8000000000000000 True"
  by code_simp+

section \<open>Stack operations\<close>

lemma bigintRem_16: "bigintRem x 16 = 0 \<longleftrightarrow> 16 dvd x"
proof -
  have "bigintRem x 16 = 0 \<longleftrightarrow> \<bar>x\<bar> mod 16 = 0"
    unfolding bigintRem_def by (cases "x = 0") (auto simp: sgn_if)
  also have "\<dots> \<longleftrightarrow> 16 dvd \<bar>x\<bar>" by (simp add: dvd_eq_mod_eq_0)
  also have "\<dots> \<longleftrightarrow> 16 dvd x" by simp
  finally show ?thesis .
qed

lemma sortFrames_sorted: "framesSorted (sortFrames fs)"
  unfolding framesSorted_def sortFrames_def by (rule sorted_sort_key)

lemma sortFrames_id: "framesSorted fs \<Longrightarrow> sortFrames fs = fs"
  unfolding framesSorted_def sortFrames_def by (rule sort_key_id_if_sorted)

lemma sortFrames_snoc:
  assumes "framesSorted fs"
  shows "sortFrames (fs @ [k]) =
          takeWhile (\<lambda>f. fsp k \<le> fsp f) fs @ k # dropWhile (\<lambda>f. fsp k \<le> fsp f) fs"
proof -
  let ?key = "\<lambda>f. - fsp f"
  have "foldr (insort_key ?key) fs [k] =
          takeWhile (\<lambda>f. ?key f \<le> ?key k) fs @ k # dropWhile (\<lambda>f. ?key f \<le> ?key k) fs"
    using assms unfolding framesSorted_def
  proof (induction fs)
    case Nil
    show ?case by simp
  next
    case (Cons y ys)
    then have ys: "\<forall>x \<in> set ys. ?key y \<le> ?key x" and sorted: "sorted (map ?key ys)"
      by simp_all
    from Cons.IH [OF sorted] have ih: "foldr (insort_key ?key) ys [k] =
          takeWhile (\<lambda>f. ?key f \<le> ?key k) ys @ k # dropWhile (\<lambda>f. ?key f \<le> ?key k) ys" .
    show ?case
    proof (cases "?key y \<le> ?key k")
      case True
      have "\<forall>x \<in> set (foldr (insort_key ?key) ys [k]). ?key y \<le> ?key x"
        unfolding ih using ys True
        by (auto dest: set_takeWhileD set_dropWhileD)
      then have "insort_key ?key y (foldr (insort_key ?key) ys [k])
                  = y # foldr (insort_key ?key) ys [k]"
        by (rule insort_is_Cons)
      with True ih show ?thesis by simp
    next
      case False
      with ys have none: "\<forall>x \<in> set ys. \<not> ?key x \<le> ?key k" by auto
      then have tw: "takeWhile (\<lambda>f. ?key f \<le> ?key k) ys = []"
        by (cases ys) simp_all
      with none have dw: "dropWhile (\<lambda>f. ?key f \<le> ?key k) ys = ys"
        by (cases ys) simp_all
      from ys have "insort_key ?key y ys = y # ys" by (rule insort_is_Cons)
      with False ih tw dw show ?thesis by simp
    qed
  qed
  then show ?thesis
    unfolding sortFrames_def sort_key_def by simp
qed

lemma findIndex_None: "findIndex P xs = None \<longleftrightarrow> (\<forall>x \<in> set xs. \<not> P x)"
  by (induction xs) (auto split: option.splits)

lemma findIndex_append_hit:
  assumes "\<forall>x \<in> set xs. \<not> P x" and "P k"
  shows "findIndex P (xs @ k # ys) = Some (length xs)"
  using assms by (induction xs) simp_all

text \<open>The frame list stays ordered by descending \<open>sp\<close>: it is empty after reset,
  \<open>createStackFrame\<close> sorts it, and \<open>destroyStackFrame\<close> removes one element of it.\<close>

lemma createStackFrame_sorted: "framesSorted (stackFrames (createStackFrame s newSP sz))"
  unfolding createStackFrame_def by (simp add: Let_def sortFrames_sorted)

lemma sorted_remove_nth:
  fixes ys :: "int list"
  assumes "sorted ys"
  shows "sorted (take i ys @ drop (Suc i) ys)"
proof -
  from assms have "sorted (take i ys @ drop i ys)" by simp
  then have a: "sorted (take i ys)" and c: "\<forall>x \<in> set (take i ys). \<forall>y \<in> set (drop i ys). x \<le> y"
    unfolding sorted_append by blast+
  from assms have b: "sorted (drop (Suc i) ys)" by (rule sorted_wrt_drop)
  have "set (drop (Suc i) ys) \<subseteq> set (drop i ys)"
    by (rule set_drop_subset_set_drop) simp
  with c have "\<forall>x \<in> set (take i ys). \<forall>y \<in> set (drop (Suc i) ys). x \<le> y" by blast
  with a b show ?thesis unfolding sorted_append by blast
qed

lemma destroyStackFrame_sorted:
  assumes "framesSorted (stackFrames s)"
  shows "framesSorted (stackFrames (destroyStackFrame s newSP sz))"
proof (cases "findIndex (\<lambda>f. fsp f = newSP - sz \<and> fsize f = sz) (stackFrames s)")
  case None
  have "framesSorted (tl (sortFrames (stackFrames s)))"
    using sortFrames_sorted [of "stackFrames s"] unfolding framesSorted_def
    by (simp add: map_tl sorted_tl)
  moreover have "framesSorted []" by (simp add: framesSorted_def)
  ultimately show ?thesis
    using None sortFrames_sorted [of "stackFrames s"]
    unfolding destroyStackFrame_def by (simp add: Let_def)
next
  case (Some i)
  with sorted_remove_nth [of "map (\<lambda>f. - fsp f) (stackFrames s)" i] assms show ?thesis
    unfolding destroyStackFrame_def framesSorted_def by (simp add: Let_def take_map drop_map)
qed

lemma findIndex_Some_less: "findIndex P xs = Some i \<Longrightarrow> i < length xs"
  by (induction xs arbitrary: i) (auto split: if_splits option.splits)

lemma createStackFrame_frames:
  "length (stackFrames (createStackFrame s newSP sz)) = length (stackFrames s) + 1"
  "\<lparr>fid = nextFrameId s, fsp = newSP, fsize = sz, ftop = newSP + sz\<rparr>
     \<in> set (stackFrames (createStackFrame s newSP sz))"
  "sp (createStackFrame s newSP sz) = sp s"
  unfolding createStackFrame_def sortFrames_def by (simp_all add: Let_def)

lemma destroyStackFrame_frames:
  "length (stackFrames (destroyStackFrame s newSP sz)) = length (stackFrames s) - 1"
  "sp (destroyStackFrame s newSP sz) = sp s"
proof -
  show "length (stackFrames (destroyStackFrame s newSP sz)) = length (stackFrames s) - 1"
  proof (cases "findIndex (\<lambda>f. fsp f = newSP - sz \<and> fsize f = sz) (stackFrames s)")
    case None
    have "length (sortFrames (stackFrames s)) = length (stackFrames s)"
      unfolding sortFrames_def by simp
    with None show ?thesis
      unfolding destroyStackFrame_def
      by (cases "sortFrames (stackFrames s)") (simp_all add: Let_def)
  next
    case (Some i)
    from findIndex_Some_less [OF Some] Some show ?thesis
      unfolding destroyStackFrame_def by (simp add: Let_def)
  qed
  show "sp (destroyStackFrame s newSP sz) = sp s"
    unfolding destroyStackFrame_def by (simp add: Let_def split: option.splits)
qed

lemma setRegisterValue_SP:
  "sp (setRegisterValue s (Some SP) v) = v"
  "stackFrames (setRegisterValue s (Some SP) v) = stackFrames s"
  "nextFrameId (setRegisterValue s (Some SP) v) = nextFrameId s"
  by (simp_all add: setRegisterValue_def)

lemma createStackFrame_at:
  assumes "s' = createStackFrame (setRegisterValue s (Some SP) newSP) newSP sz"
  shows "sp s' = newSP \<and> length (stackFrames s') = length (stackFrames s) + 1
       \<and> \<lparr>fid = nextFrameId s, fsp = newSP, fsize = sz, ftop = newSP + sz\<rparr> \<in> set (stackFrames s')"
  unfolding assms
  using createStackFrame_frames [of "setRegisterValue s (Some SP) newSP" newSP sz]
  by (simp add: setRegisterValue_SP)

lemma destroyStackFrame_at:
  assumes "s' = destroyStackFrame (setRegisterValue s (Some SP) newSP) newSP sz"
  shows "sp s' = newSP \<and> length (stackFrames s') = length (stackFrames s) - 1"
  unfolding assms
  using destroyStackFrame_frames [of "setRegisterValue s (Some SP) newSP" newSP sz]
  by (simp add: setRegisterValue_SP)

lemma executeSub_sp:
  assumes "dest p = Some SP" and "executeSub s p setFlags = Inr s'"
  shows "16 dvd secondOperand s p \<and> 16 dvd sp s' \<and> 0 \<le> sp s'
       \<and> sp s' = getRegisterValue s (src1 p) - secondOperand s p
       \<and> length (stackFrames s') = length (stackFrames s) + 1
       \<and> \<lparr>fid = nextFrameId s, fsp = sp s', fsize = secondOperand s p,
           ftop = sp s' + secondOperand s p\<rparr> \<in> set (stackFrames s')"
proof -
  let ?new = "getRegisterValue s (src1 p) - secondOperand s p"
  from assms have a: "16 dvd secondOperand s p \<and> 16 dvd ?new \<and> 0 \<le> ?new"
    and s': "s' = createStackFrame (setRegisterValue s (Some SP) ?new) ?new (secondOperand s p)"
    unfolding executeSub_def secondOperand_def Let_def
    by (auto simp: isStackOp_def bigintRem_16 split: if_splits option.splits)
  from createStackFrame_at [OF s'] a show ?thesis by simp
qed

lemma executeAdd_sp:
  assumes "dest p = Some SP" and "plabel p = None" and "immediate p \<noteq> None \<or> src2 p \<noteq> None"
    and "executeAdd s p = Inr s'"
  shows "16 dvd secondOperand s p \<and> 16 dvd sp s'
       \<and> sp s' = getRegisterValue s (src1 p) + secondOperand s p
       \<and> length (stackFrames s') = length (stackFrames s) - 1"
proof -
  let ?new = "getRegisterValue s (src1 p) + secondOperand s p"
  from assms have a: "16 dvd secondOperand s p \<and> 16 dvd ?new"
    and s': "s' = destroyStackFrame (setRegisterValue s (Some SP) ?new) ?new (secondOperand s p)"
    unfolding executeAdd_def secondOperand_def Let_def
    by (auto simp: isStackOp_def bigintRem_16 split: if_splits option.splits)
  from destroyStackFrame_at [OF s'] a show ?thesis by simp
qed

lemma setArithmeticFlags_frames:
  "stackFrames (setArithmeticFlags s0 operation msk signMask a b r) = stackFrames s0"
  by (simp add: setArithmeticFlags_def Let_def)

lemma executeSubs_sp:
  assumes "dest p = Some SP" and "executeArithmeticWithFlags s p SubOp True = Inr s'"
  shows "16 dvd secondOperand s p \<and> 16 dvd sp s' \<and> 0 \<le> sp s'
       \<and> sp s' = getRegisterValue s (src1 p) - secondOperand s p
       \<and> length (stackFrames s') = length (stackFrames s) + 1
       \<and> \<lparr>fid = nextFrameId s, fsp = sp s', fsize = secondOperand s p,
           ftop = sp s' + secondOperand s p\<rparr> \<in> set (stackFrames s')"
proof -
  let ?new = "getRegisterValue s (src1 p) - secondOperand s p"
  from assms obtain msk signMask a b r where
        a: "16 dvd secondOperand s p \<and> 16 dvd ?new \<and> 0 \<le> ?new"
    and s': "s' = setArithmeticFlags
                    (createStackFrame (setRegisterValue s (Some SP) ?new) ?new (secondOperand s p))
                    SubOp msk signMask a b r"
    unfolding executeArithmeticWithFlags_def secondOperand_def Let_def
    by (auto simp: isStackOp_def bigintRem_16 split: if_splits option.splits)
  from createStackFrame_at [OF refl, of s ?new "secondOperand s p"] a show ?thesis
    unfolding s' by (simp add: setArithmeticFlags_frames setArithmeticFlags_regs)
qed

lemma executeAdds_sp:
  assumes "dest p = Some SP" and "executeArithmeticWithFlags s p AddOp True = Inr s'"
  shows "16 dvd secondOperand s p \<and> 16 dvd sp s'
       \<and> sp s' = getRegisterValue s (src1 p) + secondOperand s p
       \<and> length (stackFrames s') = length (stackFrames s) - 1"
proof -
  let ?new = "getRegisterValue s (src1 p) + secondOperand s p"
  from assms obtain msk signMask a b r where
        a: "16 dvd secondOperand s p \<and> 16 dvd ?new"
    and s': "s' = setArithmeticFlags
                    (destroyStackFrame (setRegisterValue s (Some SP) ?new) ?new (secondOperand s p))
                    AddOp msk signMask a b r"
    unfolding executeArithmeticWithFlags_def secondOperand_def Let_def
    by (auto simp: isStackOp_def bigintRem_16 split: if_splits option.splits)
  from destroyStackFrame_at [OF refl, of s ?new "secondOperand s p"] a show ?thesis
    unfolding s' by (simp add: setArithmeticFlags_frames setArithmeticFlags_regs)
qed

lemma sub_add_16_pair:
  assumes al: "16 dvd sp s" and ge: "16 \<le> sp s" and so: "framesSorted (stackFrames s)"
    and no: "\<not> list_ex (\<lambda>f. fsp f = sp s - 16 \<and> fsize f = 16) (stackFrames s)"
  shows "\<exists>s1 s2. executeSub s (subSp 16) False = Inr s1 \<and> executeAdd s1 (addSp 16) = Inr s2
           \<and> sp s2 = sp s \<and> stackFrames s2 = stackFrames s"
proof -
  let ?P = "\<lambda>f. fsp f = sp s - 16 \<and> fsize f = (16::int)"
  let ?k = "\<lparr>fid = nextFrameId s, fsp = sp s - 16, fsize = 16, ftop = sp s - 16 + 16\<rparr>"
  let ?le = "\<lambda>f. sp s - 16 \<le> fsp f"
  define s1 where "s1 = createStackFrame (setRegisterValue s (Some SP) (sp s - 16)) (sp s - 16) 16"
  from al have al': "16 dvd sp s - 16" by simp
  have sub: "executeSub s (subSp 16) False = Inr s1"
    unfolding executeSub_def s1_def subSp_def
    using al' ge
    by (simp add: noOperands_def getRegisterValue_def isStackOp_def bigintRem_16 Let_def)
  have fr1: "stackFrames s1 = takeWhile ?le (stackFrames s) @ ?k # dropWhile ?le (stackFrames s)"
    unfolding s1_def createStackFrame_def
    by (simp add: Let_def setRegisterValue_SP sortFrames_snoc [OF so])
  have sp1: "sp s1 = sp s - 16"
    unfolding s1_def by (simp add: createStackFrame_frames setRegisterValue_SP)
  from no have nP: "\<forall>f \<in> set (stackFrames s). \<not> ?P f"
    unfolding list_ex_iff by blast
  then have nT: "\<forall>f \<in> set (takeWhile ?le (stackFrames s)). \<not> ?P f"
    by (auto dest: set_takeWhileD)
  have idx: "findIndex ?P (stackFrames s1) = Some (length (takeWhile ?le (stackFrames s)))"
    unfolding fr1 by (rule findIndex_append_hit [OF nT]) simp
  define s2 where "s2 = destroyStackFrame (setRegisterValue s1 (Some SP) (sp s)) (sp s) 16"
  have add: "executeAdd s1 (addSp 16) = Inr s2"
    unfolding executeAdd_def s2_def addSp_def
    using al
    by (simp add: noOperands_def getRegisterValue_def isStackOp_def bigintRem_16 Let_def sp1)
  have sp2: "sp s2 = sp s"
    unfolding s2_def by (simp add: destroyStackFrame_frames setRegisterValue_SP)
  have "stackFrames s2 = takeWhile ?le (stackFrames s) @ dropWhile ?le (stackFrames s)"
    unfolding s2_def destroyStackFrame_def
    by (simp add: Let_def setRegisterValue_SP idx) (simp add: fr1)
  then have fr2: "stackFrames s2 = stackFrames s" by simp
  from sub add sp2 fr2 show ?thesis by blast
qed

lemma staleFrameState_reachable:
  "thenExec (thenExec (thenExec (executeSub reset (subSp 16) False)
       (\<lambda>s. executeSub s (subSp 16) False))
       (\<lambda>s. executeAdd s (addSp 32)))
       (\<lambda>s. executeSub s (subSp 16) False) = Inr staleFrameState"
  by (simp add: thenExec_def executeSub_def executeAdd_def subSp_def addSp_def noOperands_def
      getRegisterValue_def setRegisterValue_def isStackOp_def bigintRem_def sp_reset
      createStackFrame_def destroyStackFrame_def sortFrames_def Let_def staleFrameState_def
      reset_def initialSp_def stackRegion_def memoryLayout_def)

text \<open>
  Claim C5, as amended (for stack pointers and operands that \<open>Number\<close> converts
  exactly). In a state whose \<open>sp\<close> is a multiple of 16 and at least 16, whose
  frame list is ordered by descending \<open>sp\<close> (as every list the simulator builds is) and
  holds no frame with \<open>sp\<close> equal to the current \<open>sp - 16\<close> and size 16,
  \<open>sub sp, sp, #16\<close> followed by \<open>add sp, sp, #16\<close> succeeds, restores \<open>sp\<close> and leaves the
  frame list exactly as it was. For \<open>sub\<close>, \<open>subs\<close>, \<open>add\<close> and \<open>adds\<close> with destination
  \<open>sp\<close> (immediate or register operand), success implies that the operand and the new
  \<open>sp\<close> are multiples of 16; a successful \<open>sub\<close> or \<open>subs\<close> adds one frame record, with
  the new \<open>sp\<close> and the operand as size, and a successful \<open>add\<close> or \<open>adds\<close> removes one
  frame record when there is one.
\<close>

theorem stack_pointer_operations:
  "(16 dvd sp s \<and> 16 \<le> sp s \<and> exactNumber (sp s) \<and> framesSorted (stackFrames s)
      \<and> \<not> list_ex (\<lambda>f. fsp f = sp s - 16 \<and> fsize f = 16) (stackFrames s)
    \<longrightarrow> (\<exists>s2. thenExec (executeSub s (subSp 16) False) (\<lambda>s1. executeAdd s1 (addSp 16)) = Inr s2
             \<and> sp s2 = sp s \<and> stackFrames s2 = stackFrames s))
   \<and> (dest p = Some SP \<and> exactNumber (sp s') \<and> exactNumber (secondOperand s p)
        \<and> (executeSub s p setFlags = Inr s' \<or> executeArithmeticWithFlags s p SubOp True = Inr s')
      \<longrightarrow> 16 dvd secondOperand s p \<and> 16 dvd sp s'
          \<and> sp s' = getRegisterValue s (src1 p) - secondOperand s p
          \<and> length (stackFrames s') = length (stackFrames s) + 1
          \<and> \<lparr>fid = nextFrameId s, fsp = sp s', fsize = secondOperand s p,
              ftop = sp s' + secondOperand s p\<rparr> \<in> set (stackFrames s'))
   \<and> (dest p = Some SP \<and> exactNumber (sp s') \<and> exactNumber (secondOperand s p)
        \<and> ((plabel p = None \<and> (immediate p \<noteq> None \<or> src2 p \<noteq> None) \<and> executeAdd s p = Inr s')
           \<or> executeArithmeticWithFlags s p AddOp True = Inr s')
      \<longrightarrow> 16 dvd secondOperand s p \<and> 16 dvd sp s'
          \<and> sp s' = getRegisterValue s (src1 p) + secondOperand s p
          \<and> length (stackFrames s') = length (stackFrames s) - 1)"
proof -
  have pair: "16 dvd sp s \<and> 16 \<le> sp s \<and> exactNumber (sp s) \<and> framesSorted (stackFrames s)
      \<and> \<not> list_ex (\<lambda>f. fsp f = sp s - 16 \<and> fsize f = 16) (stackFrames s)
    \<longrightarrow> (\<exists>s2. thenExec (executeSub s (subSp 16) False) (\<lambda>s1. executeAdd s1 (addSp 16)) = Inr s2
             \<and> sp s2 = sp s \<and> stackFrames s2 = stackFrames s)"
  proof
    assume "16 dvd sp s \<and> 16 \<le> sp s \<and> exactNumber (sp s) \<and> framesSorted (stackFrames s)
      \<and> \<not> list_ex (\<lambda>f. fsp f = sp s - 16 \<and> fsize f = 16) (stackFrames s)"
    then obtain s1 s2 where "executeSub s (subSp 16) False = Inr s1"
      "executeAdd s1 (addSp 16) = Inr s2" "sp s2 = sp s" "stackFrames s2 = stackFrames s"
      using sub_add_16_pair [of s] by blast
    then show "\<exists>s2. thenExec (executeSub s (subSp 16) False) (\<lambda>s1. executeAdd s1 (addSp 16)) = Inr s2
             \<and> sp s2 = sp s \<and> stackFrames s2 = stackFrames s"
      by (simp add: thenExec_def)
  qed
  have down: "dest p = Some SP \<and> exactNumber (sp s') \<and> exactNumber (secondOperand s p)
        \<and> (executeSub s p setFlags = Inr s' \<or> executeArithmeticWithFlags s p SubOp True = Inr s')
      \<longrightarrow> 16 dvd secondOperand s p \<and> 16 dvd sp s'
          \<and> sp s' = getRegisterValue s (src1 p) - secondOperand s p
          \<and> length (stackFrames s') = length (stackFrames s) + 1
          \<and> \<lparr>fid = nextFrameId s, fsp = sp s', fsize = secondOperand s p,
              ftop = sp s' + secondOperand s p\<rparr> \<in> set (stackFrames s')"
    using executeSub_sp [of p s setFlags s'] executeSubs_sp [of p s s'] by blast
  have up: "dest p = Some SP \<and> exactNumber (sp s') \<and> exactNumber (secondOperand s p)
        \<and> ((plabel p = None \<and> (immediate p \<noteq> None \<or> src2 p \<noteq> None) \<and> executeAdd s p = Inr s')
           \<or> executeArithmeticWithFlags s p AddOp True = Inr s')
      \<longrightarrow> 16 dvd secondOperand s p \<and> 16 dvd sp s'
          \<and> sp s' = getRegisterValue s (src1 p) + secondOperand s p
          \<and> length (stackFrames s') = length (stackFrames s) - 1"
    using executeAdd_sp [of p s s'] executeAdds_sp [of p s s'] by blast
  show ?thesis
    by (rule conjI [OF pair conjI [OF down up]])
qed

theorem stack_pointer_operations_witness:
  "16 dvd sp reset \<and> 16 \<le> sp reset \<and> exactNumber (sp reset) \<and> framesSorted (stackFrames reset)
   \<and> \<not> list_ex (\<lambda>f. fsp f = sp reset - 16 \<and> fsize f = 16) (stackFrames reset)
   \<and> \<not> isl (thenExec (executeSub reset (subSp 16) False) (\<lambda>s1. executeAdd s1 (addSp 16)))
   \<and> sp (projr (thenExec (executeSub reset (subSp 16) False) (\<lambda>s1. executeAdd s1 (addSp 16))))
       = sp reset
   \<and> stackFrames (projr (thenExec (executeSub reset (subSp 16) False)
        (\<lambda>s1. executeAdd s1 (addSp 16)))) = stackFrames reset
   \<and> \<not> isl (executeSub reset (subSp 16) False)
   \<and> sp (projr (executeSub reset (subSp 16) False)) = 0x07FFFFF0
   \<and> length (stackFrames (projr (executeSub reset (subSp 16) False))) = 1
   \<and> \<not> isl (executeAdd (projr (executeSub reset (subSp 16) False)) (addSp 16))
   \<and> sp (projr (executeAdd (projr (executeSub reset (subSp 16) False)) (addSp 16))) = 0x08000000
   \<and> length (stackFrames (projr (executeAdd (projr (executeSub reset (subSp 16) False))
         (addSp 16)))) = 0"
proof -
  have h: "16 dvd sp reset \<and> 16 \<le> sp reset \<and> exactNumber (sp reset) \<and> framesSorted (stackFrames reset)
      \<and> \<not> list_ex (\<lambda>f. fsp f = sp reset - 16 \<and> fsize f = 16) (stackFrames reset)"
    unfolding sp_reset by (simp add: reset_def framesSorted_def exactNumber_def)
  with stack_pointer_operations [of reset] obtain s2 where
    pair: "thenExec (executeSub reset (subSp 16) False) (\<lambda>s1. executeAdd s1 (addSp 16)) = Inr s2
       \<and> sp s2 = sp reset \<and> stackFrames s2 = stackFrames reset"
    by blast
  then obtain s1 where s1: "executeSub reset (subSp 16) False = Inr s1"
    and s2: "executeAdd s1 (addSp 16) = Inr s2"
    by (auto simp: thenExec_def split: sum.splits)
  have ops: "dest (subSp 16) = Some SP" "secondOperand reset (subSp 16) = 16"
    "getRegisterValue reset (src1 (subSp 16)) = 0x08000000"
    "dest (addSp 16) = Some SP" "secondOperand s1 (addSp 16) = 16"
    "plabel (addSp 16) = None" "immediate (addSp 16) \<noteq> None"
    "getRegisterValue s1 (src1 (addSp 16)) = sp s1"
    by (simp_all add: subSp_def addSp_def noOperands_def secondOperand_def getRegisterValue_def
        sp_reset)
  from s1 have sp1: "sp s1 = 0x07FFFFF0"
    unfolding executeSub_def
    by (auto simp: subSp_def noOperands_def getRegisterValue_def sp_reset isStackOp_def
        bigintRem_def Let_def createStackFrame_def setRegisterValue_def split: if_splits)
  have ex1: "exactNumber (sp s1) \<and> exactNumber (secondOperand reset (subSp 16))"
    by (simp add: sp1 ops exactNumber_def)
  from stack_pointer_operations [of reset "subSp 16" s1 False] ops ex1 s1
  have down: "sp s1 = 0x08000000 - 16 \<and> length (stackFrames s1) = length (stackFrames reset) + 1"
    by simp
  from pair have sp2: "sp s2 = 0x08000000" by (simp add: sp_reset)
  have ex2: "exactNumber (sp s2) \<and> exactNumber (secondOperand s1 (addSp 16))"
    by (simp add: sp2 ops exactNumber_def)
  from stack_pointer_operations [of s1 "addSp 16" s2 False] ops ex2 s2
  have up: "length (stackFrames s2) = length (stackFrames s1) - 1"
    by simp
  from down have l1: "length (stackFrames s1) = 1" by (simp add: reset_def)
  with up have l2: "length (stackFrames s2) = 0" by simp
  from h pair s1 s2 sp1 sp2 l1 l2 show ?thesis by simp
qed

text \<open>
  Claim C5 as stated fails in the state that \<open>sub sp, sp, #16\<close>, \<open>sub sp, sp, #16\<close>,
  \<open>add sp, sp, #32\<close>, \<open>sub sp, sp, #16\<close> reach from reset. Its frame list holds frame 2 at
  \<open>sp - 16\<close> with size 16. The pair \<open>sub sp, sp, #16\<close>, \<open>add sp, sp, #16\<close> restores
  \<open>sp\<close>, but the \<open>add\<close> removes frame 2, the first frame with that \<open>sp\<close> and size,
  and keeps the frame the \<open>sub\<close> made: the list is not what it was.
\<close>

theorem stack_pair_counterexample:
  "\<not> isl (executeSub staleFrameState (subSp 16) False)
   \<and> \<not> isl (executeAdd (projr (executeSub staleFrameState (subSp 16) False)) (addSp 16))
   \<and> sp (projr (executeAdd (projr (executeSub staleFrameState (subSp 16) False)) (addSp 16)))
       = sp staleFrameState
   \<and> stackFrames staleFrameState
       = [\<lparr>fid = 3, fsp = 0x07FFFFF0, fsize = 16, ftop = 0x08000000\<rparr>,
          \<lparr>fid = 2, fsp = 0x07FFFFE0, fsize = 16, ftop = 0x07FFFFF0\<rparr>]
   \<and> stackFrames (projr (executeAdd (projr (executeSub staleFrameState (subSp 16) False))
        (addSp 16)))
       = [\<lparr>fid = 3, fsp = 0x07FFFFF0, fsize = 16, ftop = 0x08000000\<rparr>,
          \<lparr>fid = 4, fsp = 0x07FFFFE0, fsize = 16, ftop = 0x07FFFFF0\<rparr>]
   \<and> stackFrames (projr (executeAdd (projr (executeSub staleFrameState (subSp 16) False))
        (addSp 16))) \<noteq> stackFrames staleFrameState"
  by (simp add: executeSub_def executeAdd_def subSp_def addSp_def noOperands_def
      getRegisterValue_def setRegisterValue_def isStackOp_def bigintRem_def
      createStackFrame_def destroyStackFrame_def sortFrames_def Let_def staleFrameState_def)

section \<open>Return from the entry function and from callees\<close>

lemma findIndexFrom_less:
  "xs \<noteq> [] \<Longrightarrow> findIndexFrom xs addr i < i + length xs"
proof (induction xs arbitrary: i)
  case Nil
  then show ?case by simp
next
  case (Cons x xs)
  show ?case
  proof (cases xs)
    case Nil
    then show ?thesis by auto
  next
    case (Cons y ys)
    with Cons.IH [of "Suc i"] show ?thesis by auto
  qed
qed

lemma findInstructionIndexByAddress_less:
  "instructions s \<noteq> [] \<Longrightarrow> findInstructionIndexByAddress s addr < length (instructions s)"
  unfolding findInstructionIndexByAddress_def using findIndexFrom_less [of "instructions s" addr 0]
  by simp

lemma findIndexFrom_exact:
  assumes "sorted_wrt (<) (map address xs)" and "j < length xs"
  shows "findIndexFrom xs (address (xs ! j)) i = i + j"
  using assms
proof (induction xs arbitrary: i j)
  case Nil
  then show ?case by simp
next
  case (Cons x xs)
  show ?case
  proof (cases j)
    case 0
    then show ?thesis by simp
  next
    case (Suc k)
    with Cons.prems have k: "k < length xs" and lt: "address x < address (xs ! k)"
      and so: "sorted_wrt (<) (map address xs)"
      by auto
    from Cons.IH [OF so k, of "Suc i"] lt Suc show ?thesis by simp
  qed
qed

text \<open>A \<open>ret\<close> inside the entry function halts with \<open>pc = 0\<close>, whatever register 30 holds,
  for every loaded program: its instruction addresses increase strictly, \<open>pc\<close> is the
  address of the instruction at index \<open>i\<close> being executed, and the entry point is the
  address of the instruction at index \<open>e\<close>.\<close>

lemma ret_in_entry_function_halts:
  assumes "sorted_wrt (<) (map address (instructions s))"
    and "i < length (instructions s)" and "pc s = address (instructions s ! i)"
    and "e < length (instructions s)" and "entryPointAddress s = address (instructions s ! e)"
    and "0 \<le> entryPointAddress s"
    and "entryPointLabel s = Some l" and "l \<noteq> []"
    and "e \<le> i" and "int i < entryFunctionEndIndex s"
  shows "executeRet s p = (False, s\<lparr>pc := 0\<rparr>)"
proof -
  have ci: "findInstructionIndexByAddress s (pc s) = i"
    unfolding findInstructionIndexByAddress_def assms(3)
    using findIndexFrom_exact [OF assms(1,2), of 0] by simp
  have ei: "findInstructionIndexByAddress s (entryPointAddress s) = e"
    unfolding findInstructionIndexByAddress_def assms(5)
    using findIndexFrom_exact [OF assms(1,4), of 0] by simp
  have "address (instructions s ! e) \<le> address (instructions s ! i)"
  proof (cases "e = i")
    case True
    then show ?thesis by simp
  next
    case False
    with assms(9) have "e < i" by simp
    with assms(1,2) have "map address (instructions s) ! e < map address (instructions s) ! i"
      by (intro sorted_wrt_nth_less) simp_all
    with assms(2,4) show ?thesis by simp
  qed
  with assms ci ei show ?thesis
    unfolding executeRet_def by (simp add: Let_def)
qed

text \<open>Outside the entry function, a return address that is zero or negative halts.\<close>

lemma ret_zero_or_negative_halts:
  assumes "entryPointLabel s = None \<or> entryFunctionEndIndex s \<le> int (findInstructionIndexByAddress s (pc s))"
    and "src p = None" and "xregs s 30 \<le> 0"
  shows "executeRet s p = (False, s\<lparr>pc := 0\<rparr>)"
  using assms unfolding executeRet_def
  by (auto simp: Let_def getRegisterValue_def)

text \<open>Outside the entry function, every positive return address is taken as valid: the
  index that \<open>findInstructionIndexByAddress\<close> returns always lies within the program, so
  the test for an address outside the instruction set never fires.\<close>

lemma ret_positive_address_never_halts:
  assumes "instructions s \<noteq> []"
    and "entryPointLabel s = None \<or> entryFunctionEndIndex s \<le> int (findInstructionIndexByAddress s (pc s))"
    and "src p = None" and "0 < xregs s 30"
  shows "executeRet s p =
          (True, s\<lparr>pc := xregs s 30,
                   currentInstructionIndex := findInstructionIndexByAddress s (xregs s 30)\<rparr>)"
  using assms findInstructionIndexByAddress_less [OF assms(1), of "xregs s 30"]
  unfolding executeRet_def
  by (auto simp: Let_def getRegisterValue_def)

text \<open>
  Claim C4 at the failing input: the program \<open>_start:\<close>, \<open>mov x30, #0x1000\<close>, \<open>b f\<close>,
  \<open>f:\<close>, \<open>ret\<close>. The \<open>ret\<close> at address 8 lies outside the entry function (index 2 is not
  below the entry function's end index 2) and register 30 holds \<open>0x1000\<close>, an address of
  no instruction. \<open>executeRet\<close> does not halt: it reports a taken branch, sets \<open>pc\<close> to
  \<open>0x1000\<close> and the cursor to instruction 0.
\<close>

theorem ret_to_address_outside_program_does_not_halt:
  "map address (instructions retOutsideState) = [0, 4, 8]
   \<and> pc retOutsideState = 8
   \<and> findInstructionIndexByAddress retOutsideState (pc retOutsideState) = 2
   \<and> entryFunctionEndIndex retOutsideState = 2
   \<and> getRegisterValue retOutsideState (Some (X 30)) = 0x1000
   \<and> fst (executeRet retOutsideState (noOperands ''ret'' ''ret'')) = True
   \<and> pc (snd (executeRet retOutsideState (noOperands ''ret'' ''ret''))) = 0x1000
   \<and> currentInstructionIndex (snd (executeRet retOutsideState (noOperands ''ret'' ''ret''))) = 0"
  by (simp add: executeRet_def findInstructionIndexByAddress_def retOutsideState_def
      retProgram_def getRegisterValue_def noOperands_def reset_def Let_def)

section \<open>Encodable immediates of \<open>mov\<close>\<close>

lemma countBitsLoop_le:
  "0 \<le> c \<Longrightarrow> c < 2 ^ n \<Longrightarrow> countBitsLoop k c \<le> k + n"
proof (induction n arbitrary: c k)
  case 0
  then have "c = 0" by simp
  then show ?case by (subst countBitsLoop.simps) simp
next
  case (Suc n)
  show ?case
  proof (cases "c = 0")
    case True
    then show ?thesis by (subst countBitsLoop.simps) simp
  next
    case False
    with Suc.prems have pos: "0 < c" by simp
    from Suc.prems have "0 \<le> c div 2" "c div 2 < 2 ^ n" by simp_all
    from Suc.IH [OF this] have "countBitsLoop k' (c div 2) \<le> k' + n" for k' by blast
    from this [of k] this [of "k + 1"] pos show ?thesis
      by (subst countBitsLoop.simps) (simp add: drop_bit_eq_div)
  qed
qed

lemma countBitsLoop_less:
  "0 \<le> c \<Longrightarrow> c < 2 ^ n - 1 \<Longrightarrow> countBitsLoop k c < k + n"
proof (induction n arbitrary: c k)
  case 0
  then show ?case by simp
next
  case (Suc n)
  show ?case
  proof (cases "c = 0")
    case True
    then show ?thesis by (subst countBitsLoop.simps) simp
  next
    case False
    with Suc.prems have pos: "0 < c" by simp
    from Suc.prems have h: "0 \<le> c div 2" "c div 2 < 2 ^ n" by simp_all
    show ?thesis
    proof (cases "c AND 1 \<noteq> 0")
      case True
      then have "odd c" by (simp add: and_one_eq mod_2_eq_odd)
      with Suc.prems have "c div 2 < 2 ^ n - 1" by (auto elim!: oddE)
      from Suc.IH [OF h(1) this, of "k + 1"] True pos show ?thesis
        by (subst countBitsLoop.simps) (simp add: drop_bit_eq_div)
    next
      case False
      with countBitsLoop_le [OF h, of k] pos show ?thesis
        by (subst countBitsLoop.simps) (simp add: drop_bit_eq_div)
    qed
  qed
qed

lemma countBits_partial_chunk:
  assumes "0 \<le> c" "c \<le> 0xFFFF" "c \<noteq> 0xFFFF"
  shows "countBits c < 16"
  unfolding countBits_def using countBitsLoop_less [of c 16 0] assms by simp

lemma mask16: "(0xFFFF::int) = mask 16"
  by (simp add: mask_eq_exp_minus_1)

lemma shiftedMask_eq:
  "s + 16 \<le> w \<Longrightarrow> push_bit s (mask 16) AND mask w = (push_bit s (mask 16) :: int)"
  by (rule bit_eqI) (auto simp: bit_simps)

lemma extract_chunk:
  "drop_bit s (x AND push_bit s (mask 16)) = chunk16 x s" for x :: int
  unfolding chunk16_def by (rule bit_eqI) (auto simp: bit_simps)

lemma chunk16_range: "0 \<le> chunk16 x s" "chunk16 x s \<le> 0xFFFF" "chunk16 x s < 65536"
proof -
  have "chunk16 x s < 2 ^ 16" unfolding chunk16_def by (rule take_bit_int_less_exp)
  then show "chunk16 x s \<le> 0xFFFF" "chunk16 x s < 65536" by simp_all
  show "0 \<le> chunk16 x s" unfolding chunk16_def by simp
qed

lemma bit_chunk16: "bit (chunk16 x t) n \<longleftrightarrow> n < 16 \<and> bit x (t + n)"
  unfolding chunk16_def by (simp add: bit_simps)

lemma chunk16_eq_0_iff: "chunk16 x t = 0 \<longleftrightarrow> (\<forall>n < 16. \<not> bit x (t + n))"
  by (auto simp: bit_eq_iff bit_chunk16)

lemma chunk16_eq_ones_iff: "chunk16 x t = 0xFFFF \<longleftrightarrow> (\<forall>n < 16. bit x (t + n))"
  unfolding mask16 by (auto simp: bit_eq_iff bit_chunk16 bit_simps)

lemma otherBits_zero_iff:
  "u AND NOT (push_bit s (mask 16)) = 0 \<longleftrightarrow> (\<forall>m. bit u m \<longrightarrow> s \<le> m \<and> m < s + 16)"
  for u :: int
proof
  assume z: "u AND NOT (push_bit s (mask 16)) = 0"
  show "\<forall>m. bit u m \<longrightarrow> s \<le> m \<and> m < s + 16"
  proof (intro allI impI)
    fix m assume b: "bit u m"
    from z have "\<not> bit (u AND NOT (push_bit s (mask 16))) m" by simp
    with b show "s \<le> m \<and> m < s + 16" by (auto simp: bit_simps)
  qed
next
  assume "\<forall>m. bit u m \<longrightarrow> s \<le> m \<and> m < s + 16"
  then show "u AND NOT (push_bit s (mask 16)) = 0"
    by (intro bit_eqI) (auto simp: bit_simps)
qed

lemma bit_in_chunk:
  assumes "bit u m" and "t \<le> m" and "m < t + 16"
  shows "chunk16 u t \<noteq> 0"
proof -
  from assms have "bit (chunk16 u t) (m - t)" by (simp add: bit_chunk16)
  then show ?thesis by auto
qed

lemma movzMatches_iff:
  assumes s: "s \<in> set shifts" and u: "take_bit w u = u"
    and fit: "\<forall>t \<in> set shifts. t + 16 \<le> w"
    and cover: "\<forall>m < w. \<exists>t \<in> set shifts. t \<le> m \<and> m < t + 16"
    and apart: "\<forall>t \<in> set shifts. \<forall>t' \<in> set shifts. t \<noteq> t' \<longrightarrow> t + 16 \<le> t' \<or> t' + 16 \<le> t"
  shows "movzMatches u (mask w) s \<longleftrightarrow> u \<noteq> 0 \<and> onlyChunk u shifts s"
proof -
  from s fit have sw: "s + 16 \<le> w" by blast
  have inw: "m < w" if "bit u m" for m
  proof -
    from that u have "bit (take_bit w u) m" by simp
    then show ?thesis by (simp add: bit_simps)
  qed
  have eq: "movzMatches u (mask w) s \<longleftrightarrow>
              u AND NOT (push_bit s (mask 16)) = 0 \<and> chunk16 u s > 0"
    unfolding movzMatches_def Let_def mask16 shiftedMask_eq [OF sw] extract_chunk
    using chunk16_range(2) [of u s] by (auto simp: mask16)
  have only: "onlyChunk u shifts s \<longleftrightarrow> (\<forall>t \<in> set shifts. t \<noteq> s \<longrightarrow> chunk16 u t = 0)"
    unfolding onlyChunk_def list_all_iff by blast
  show ?thesis
  proof
    assume "movzMatches u (mask w) s"
    with eq have ob: "\<forall>m. bit u m \<longrightarrow> s \<le> m \<and> m < s + 16" and pos: "chunk16 u s > 0"
      unfolding otherBits_zero_iff by blast+
    have "chunk16 u t = 0" if t: "t \<in> set shifts" "t \<noteq> s" for t
    proof (rule ccontr)
      assume "chunk16 u t \<noteq> 0"
      then obtain n where n: "n < 16" "bit u (t + n)"
        unfolding chunk16_eq_0_iff by blast
      with ob have "s \<le> t + n \<and> t + n < s + 16" by blast
      moreover from apart t s have "t + 16 \<le> s \<or> s + 16 \<le> t" by blast
      ultimately show False using n(1) by linarith
    qed
    moreover from pos have "u \<noteq> 0" by (auto simp: chunk16_def)
    ultimately show "u \<noteq> 0 \<and> onlyChunk u shifts s"
      unfolding only by blast
  next
    assume a: "u \<noteq> 0 \<and> onlyChunk u shifts s"
    have loc: "s \<le> m \<and> m < s + 16" if b: "bit u m" for m
    proof -
      from cover inw [OF b] obtain t where t: "t \<in> set shifts" "t \<le> m" "m < t + 16" by blast
      from bit_in_chunk [OF b t(2,3)] a t(1) have "t = s" unfolding only by blast
      with t show ?thesis by simp
    qed
    from a obtain m where m: "bit u m" by (auto simp: bit_eq_iff)
    from bit_in_chunk [OF m] loc [OF m] have "chunk16 u s \<noteq> 0" by blast
    with chunk16_range(1) [of u s] have "chunk16 u s > 0" by simp
    with loc show "movzMatches u (mask w) s"
      unfolding eq otherBits_zero_iff by blast
  qed
qed

lemma movnChunkValid_eq:
  assumes "t + 16 \<le> w"
  shows "movnChunkValid u (mask w) s e t \<longleftrightarrow>
          (if t = s
           then chunk16 u t = NOT e AND 0xFFFF
                \<and> (chunk16 u t \<noteq> 0xFFFF \<longrightarrow> \<not> (countBits (chunk16 u t) < 16 \<and> chunk16 u t \<noteq> 0))
           else chunk16 u t = 0xFFFF)"
proof -
  have "drop_bit t (u AND (push_bit t 0xFFFF AND mask w)) = chunk16 u t"
    unfolding mask16 shiftedMask_eq [OF assms] extract_chunk ..
  then show ?thesis
    unfolding movnChunkValid_def Let_def by auto
qed

lemma bit_notValue: "bit (NOT u AND mask w) m \<longleftrightarrow> m < w \<and> \<not> bit u m" for u :: int
  by (auto simp: bit_simps)

lemma movnMatches_iff:
  assumes s: "s \<in> set shifts" and u: "take_bit w u = u"
    and fit: "\<forall>t \<in> set shifts. t + 16 \<le> w"
    and cover: "\<forall>m < w. \<exists>t \<in> set shifts. t \<le> m \<and> m < t + 16"
  shows "movnMatches u (mask w) shifts s \<longleftrightarrow> onlyChunkClear u shifts s"
proof -
  from s fit have sw: "s + 16 \<le> w" by blast
  define nv where "nv = NOT u AND mask w"
  have bnv: "bit nv m \<longleftrightarrow> m < w \<and> \<not> bit u m" for m
    unfolding nv_def by (rule bit_notValue)
  have clear: "onlyChunkClear u shifts s \<longleftrightarrow>
                 chunk16 u s = 0 \<and> (\<forall>t \<in> set shifts. t \<noteq> s \<longrightarrow> chunk16 u t = 0xFFFF)"
    unfolding onlyChunkClear_def list_all_iff by blast
  have valid: "list_all (movnChunkValid u (mask w) s e) shifts \<longleftrightarrow>
                 (\<forall>t \<in> set shifts. if t = s
                    then chunk16 u t = NOT e AND 0xFFFF
                         \<and> (chunk16 u t \<noteq> 0xFFFF \<longrightarrow>
                               \<not> (countBits (chunk16 u t) < 16 \<and> chunk16 u t \<noteq> 0))
                    else chunk16 u t = 0xFFFF)" for e
    unfolding list_all_iff using fit by (auto simp: movnChunkValid_eq)
  have eq: "movnMatches u (mask w) shifts s \<longleftrightarrow>
              nv AND NOT (push_bit s (mask 16)) = 0 \<and> chunk16 nv s > 0
              \<and> push_bit s (chunk16 nv s) AND mask w = nv
              \<and> NOT (push_bit s (chunk16 nv s) AND mask w) AND mask w = u
              \<and> list_all (movnChunkValid u (mask w) s (chunk16 nv s)) shifts"
    unfolding movnMatches_def Let_def nv_def [symmetric] mask16 shiftedMask_eq [OF sw] extract_chunk
    using chunk16_range [of nv s] by (auto simp: mask16)
  show ?thesis
  proof
    assume "movnMatches u (mask w) shifts s"
    with eq have pos: "chunk16 nv s > 0"
      and all: "list_all (movnChunkValid u (mask w) s (chunk16 nv s)) shifts"
      by blast+
    from all have others: "\<forall>t \<in> set shifts. t \<noteq> s \<longrightarrow> chunk16 u t = 0xFFFF"
      unfolding valid by (auto split: if_splits)
    from all s have here: "chunk16 u s \<noteq> 0xFFFF \<longrightarrow>
                           \<not> (countBits (chunk16 u s) < 16 \<and> chunk16 u s \<noteq> 0)"
      unfolding valid by (auto split: if_splits)
    from pos have "chunk16 nv s \<noteq> 0" by simp
    then obtain n where "n < 16" "bit nv (s + n)"
      unfolding chunk16_eq_0_iff by blast
    then have "n < 16" "\<not> bit u (s + n)" by (simp_all add: bnv)
    then have ne: "chunk16 u s \<noteq> 0xFFFF"
      unfolding chunk16_eq_ones_iff by blast
    with countBits_partial_chunk [OF chunk16_range(1,2), of u s] have "countBits (chunk16 u s) < 16"
      by blast
    with here ne have "chunk16 u s = 0" by blast
    with others show "onlyChunkClear u shifts s"
      unfolding clear by blast
  next
    assume "onlyChunkClear u shifts s"
    then have zero: "chunk16 u s = 0"
      and others: "\<forall>t \<in> set shifts. t \<noteq> s \<longrightarrow> chunk16 u t = 0xFFFF"
      unfolding clear by blast+
    have loc: "bit nv m \<longleftrightarrow> s \<le> m \<and> m < s + 16" for m
    proof
      assume b: "bit nv m"
      then have mw: "m < w" and nb: "\<not> bit u m" by (simp_all add: bnv)
      from cover mw obtain t where t: "t \<in> set shifts" "t \<le> m" "m < t + 16" by blast
      have "t = s"
      proof (rule ccontr)
        assume "t \<noteq> s"
        with others t(1) have "chunk16 u t = 0xFFFF" by blast
        then have ones: "\<And>n. n < 16 \<Longrightarrow> bit u (t + n)"
          unfolding chunk16_eq_ones_iff by blast
        from t(2,3) have "m - t < 16" "t + (m - t) = m" by auto
        with ones [of "m - t"] have "bit u m" by simp
        with nb show False by simp
      qed
      with t show "s \<le> m \<and> m < s + 16" by simp
    next
      assume m: "s \<le> m \<and> m < s + 16"
      from zero have zeros: "\<And>n. n < 16 \<Longrightarrow> \<not> bit u (s + n)"
        unfolding chunk16_eq_0_iff by blast
      from m have "m - s < 16" "s + (m - s) = m" by auto
      with zeros [of "m - s"] have "\<not> bit u m" by simp
      with m sw show "bit nv m" by (simp add: bnv)
    qed
    have nveq: "nv = push_bit s (mask 16)"
      by (rule bit_eqI) (auto simp: loc bit_simps)
    have ext: "chunk16 nv s = 0xFFFF"
      unfolding chunk16_eq_ones_iff by (simp add: loc)
    have c1: "nv AND NOT (push_bit s (mask 16)) = 0"
      unfolding nveq by simp
    have "push_bit s (chunk16 nv s) AND mask w = push_bit s (mask 16) AND mask w"
      by (simp only: ext mask16)
    also have "\<dots> = push_bit s (mask 16)" by (rule shiftedMask_eq [OF sw])
    also have "\<dots> = nv" by (simp only: nveq)
    finally have c2: "push_bit s (chunk16 nv s) AND mask w = nv" .
    have "NOT nv AND mask w = u"
      unfolding nv_def using u
      by (intro bit_eqI) (auto simp: bit_simps bit_eq_iff)
    with c2 have c3: "NOT (push_bit s (chunk16 nv s) AND mask w) AND mask w = u" by simp
    have c4: "list_all (movnChunkValid u (mask w) s (chunk16 nv s)) shifts"
      unfolding valid ext using zero others by (auto simp: countBits_def)
    from c1 c2 c3 c4 ext show "movnMatches u (mask w) shifts s"
      unfolding eq by simp
  qed
qed

lemma layout64:
  "\<forall>t \<in> set (movShifts True). t + 16 \<le> movWidth True"
  "\<forall>m < movWidth True. \<exists>t \<in> set (movShifts True). t \<le> m \<and> m < t + 16"
  "\<forall>t \<in> set (movShifts True). \<forall>t' \<in> set (movShifts True). t \<noteq> t' \<longrightarrow> t + 16 \<le> t' \<or> t' + 16 \<le> t"
proof -
  show "\<forall>t \<in> set (movShifts True). t + 16 \<le> movWidth True"
    by (simp add: movShifts_def movWidth_def)
  show "\<forall>t \<in> set (movShifts True). \<forall>t' \<in> set (movShifts True). t \<noteq> t' \<longrightarrow> t + 16 \<le> t' \<or> t' + 16 \<le> t"
    by (simp add: movShifts_def)
  show "\<forall>m < movWidth True. \<exists>t \<in> set (movShifts True). t \<le> m \<and> m < t + 16"
  proof (intro allI impI)
    fix m :: nat assume "m < movWidth True"
    then have "m < 16 \<or> (16 \<le> m \<and> m < 32) \<or> (32 \<le> m \<and> m < 48) \<or> (48 \<le> m \<and> m < 64)"
      by (auto simp: movWidth_def)
    then show "\<exists>t \<in> set (movShifts True). t \<le> m \<and> m < t + 16"
      by (auto simp: movShifts_def)
  qed
qed

lemma layout32:
  "\<forall>t \<in> set (movShifts False). t + 16 \<le> movWidth False"
  "\<forall>m < movWidth False. \<exists>t \<in> set (movShifts False). t \<le> m \<and> m < t + 16"
  "\<forall>t \<in> set (movShifts False). \<forall>t' \<in> set (movShifts False). t \<noteq> t' \<longrightarrow> t + 16 \<le> t' \<or> t' + 16 \<le> t"
proof -
  show "\<forall>t \<in> set (movShifts False). t + 16 \<le> movWidth False"
    by (simp add: movShifts_def movWidth_def)
  show "\<forall>t \<in> set (movShifts False). \<forall>t' \<in> set (movShifts False). t \<noteq> t' \<longrightarrow> t + 16 \<le> t' \<or> t' + 16 \<le> t"
    by (simp add: movShifts_def)
  show "\<forall>m < movWidth False. \<exists>t \<in> set (movShifts False). t \<le> m \<and> m < t + 16"
  proof (intro allI impI)
    fix m :: nat assume "m < movWidth False"
    then have "m < 16 \<or> (16 \<le> m \<and> m < 32)"
      by (auto simp: movWidth_def)
    then show "\<exists>t \<in> set (movShifts False). t \<le> m \<and> m < t + 16"
      by (auto simp: movShifts_def)
  qed
qed

lemma movMask_eq: "movMask is64Bit = mask (movWidth is64Bit)"
  by (simp add: movMask_def movWidth_def mask64 mask32)

lemma movLayout:
  fixes is64Bit :: bool
  defines "w \<equiv> movWidth is64Bit" and "shifts \<equiv> movShifts is64Bit"
  shows "\<forall>t \<in> set shifts. t + 16 \<le> w"
    "\<forall>m < w. \<exists>t \<in> set shifts. t \<le> m \<and> m < t + 16"
    "\<forall>t \<in> set shifts. \<forall>t' \<in> set shifts. t \<noteq> t' \<longrightarrow> t + 16 \<le> t' \<or> t' + 16 \<le> t"
proof -
  show "\<forall>t \<in> set shifts. t + 16 \<le> w"
    unfolding w_def shifts_def using layout64(1) layout32(1) by (cases is64Bit) simp_all
  show "\<forall>m < w. \<exists>t \<in> set shifts. t \<le> m \<and> m < t + 16"
    unfolding w_def shifts_def using layout64(2) layout32(2) by (cases is64Bit) simp_all
  show "\<forall>t \<in> set shifts. \<forall>t' \<in> set shifts. t \<noteq> t' \<longrightarrow> t + 16 \<le> t' \<or> t' + 16 \<le> t"
    unfolding w_def shifts_def using layout64(3) layout32(3) by (cases is64Bit) simp_all
qed
lemma isMovImmediateEncodable_iff:
  "isMovImmediateEncodable v is64Bit \<longleftrightarrow>
    (take_bit (movWidth is64Bit) v \<noteq> 0
       \<and> list_ex (onlyChunk (take_bit (movWidth is64Bit) v) (movShifts is64Bit)) (movShifts is64Bit))
    \<or> list_ex (onlyChunkClear (take_bit (movWidth is64Bit) v) (movShifts is64Bit)) (movShifts is64Bit)"
proof -
  define w where "w = movWidth is64Bit"
  define shifts where "shifts = movShifts is64Bit"
  define u where "u = take_bit w v"
  have u: "take_bit w u = u" unfolding u_def by simp
  note lay = movLayout [of is64Bit, folded w_def shifts_def]
  have z: "movzMatches u (mask w) s \<longleftrightarrow> u \<noteq> 0 \<and> onlyChunk u shifts s" if "s \<in> set shifts" for s
    using that u lay by (rule movzMatches_iff)
  have n: "movnMatches u (mask w) shifts s \<longleftrightarrow> onlyChunkClear u shifts s" if "s \<in> set shifts" for s
    using that u lay(1,2) by (rule movnMatches_iff)
  have uu: "v AND mask w = u"
    unfolding u_def by (simp only: take_bit_eq_mask)
  have zz: "list_ex (movzMatches u (mask w)) shifts \<longleftrightarrow>
              u \<noteq> 0 \<and> list_ex (onlyChunk u shifts) shifts"
  proof -
    have "(\<exists>s \<in> set shifts. movzMatches u (mask w) s)
            \<longleftrightarrow> (\<exists>s \<in> set shifts. u \<noteq> 0 \<and> onlyChunk u shifts s)"
      by (rule bex_cong [OF refl z])
    then show ?thesis unfolding list_ex_iff by simp
  qed
  have nn: "list_ex (movnMatches u (mask w) shifts) shifts \<longleftrightarrow>
              list_ex (onlyChunkClear u shifts) shifts"
    unfolding list_ex_iff by (rule bex_cong [OF refl n])
  have "isMovImmediateEncodable v is64Bit \<longleftrightarrow>
          list_ex (movzMatches (v AND mask w) (mask w)) shifts
          \<or> list_ex (movnMatches (v AND mask w) (mask w) shifts) shifts"
    unfolding isMovImmediateEncodable_def Let_def movMask_eq w_def shifts_def ..
  then show ?thesis
    unfolding uu zz nn unfolding u_def w_def shifts_def .
qed
lemma isMovImmediateEncodable_masked:
  "isMovImmediateEncodable (v AND movMask is64Bit) is64Bit = isMovImmediateEncodable v is64Bit"
  unfolding isMovImmediateEncodable_def Let_def by (simp add: and.assoc)

lemma executeMov_immediate:
  "executeMov s (movImm d v) =
    (if isMovImmediateEncodable v (\<not> isW (Some d))
     then Inr (setRegisterValue s (Some d)
                (if isW (Some d) then toUint32 (toInt32 (v AND 0xFFFFFFFF))
                 else v AND 0xFFFFFFFFFFFFFFFF))
     else Inl MovNotEncodable)"
proof (cases "isW (Some d)")
  case True
  with isMovImmediateEncodable_masked [of v False] show ?thesis
    unfolding executeMov_def movImm_def by (simp add: noOperands_def Let_def movMask_def)
next
  case False
  with isMovImmediateEncodable_masked [of v True] show ?thesis
    unfolding executeMov_def movImm_def by (simp add: noOperands_def Let_def movMask_def)
qed


lemma mov_examples:
  "isMovImmediateEncodable 0x10000 True"
  "\<not> isMovImmediateEncodable 0xFFFFFFFFFFFFF True"
  "\<not> isMovImmediateEncodable 0 True"
  "\<not> isMovImmediateEncodable (-1) True"
  "\<not> isMovImmediateEncodable (-2) True"
  "specMovEncodable 0xFFFFFFFFFFFFF True"
  "specMovEncodable 0 True"
  "specMovEncodable (-2) True"
  by code_simp+

text \<open>
  Claim C2 at the failing input \<open>mov x0, #-2\<close>. On 64 bits \<open>-2\<close> is
  \<open>0xFFFFFFFFFFFFFFFE\<close>, the bitwise complement of the 16-bit value 1 positioned at bit
  offset 0: a MOVN form, which by the stated rule succeeds. \<open>isMovImmediateEncodable\<close>
  finds that pattern at shift 0 and then discards it, because the chunk \<open>0xFFFE\<close> of the
  value has 15 bits set, fewer than 16 (the test added to make \<open>0xFFFFFFFFFFFFF\<close> fail);
  \<open>executeMov\<close> fails with the encoding error. After that test the only complements
  accepted are those of \<open>0xFFFF\<close> at one offset (lemma \<open>isMovImmediateEncodable_iff\<close>).
  \<open>mov x0, #0\<close> (the 16-bit value 0 at offset 0, a MOVZ form) and \<open>mov x0, #-1\<close> (the
  complement of 0) fail as well, by the guard \<open>extracted > 0n\<close> of both loops.
\<close>

theorem mov_complement_of_one_rejected:
  "take_bit 64 (NOT (- 2 :: int)) = push_bit 0 1
   \<and> isMovzForm (take_bit 64 (NOT (- 2 :: int))) 0
   \<and> specMovEncodable (- 2) True
   \<and> chunk16 (take_bit 64 (- 2)) 0 = 0xFFFE
   \<and> countBits 0xFFFE = 15
   \<and> \<not> isMovImmediateEncodable (take_bit 64 (- 2)) True
   \<and> executeMov s (movImm (X 0) (- 2)) = Inl MovNotEncodable
   \<and> isMovzForm (take_bit 64 0) 0
   \<and> specMovEncodable 0 True
   \<and> executeMov s (movImm (X 0) 0) = Inl MovNotEncodable
   \<and> specMovEncodable (- 1) True
   \<and> executeMov s (movImm (X 0) (- 1)) = Inl MovNotEncodable"
proof -
  have x: "\<not> isW (Some (X 0))" by (simp add: isW_def)
  have v: "take_bit 64 (NOT (- 2 :: int)) = push_bit 0 1"
      "isMovzForm (take_bit 64 (NOT (- 2 :: int))) 0"
      "specMovEncodable (- 2) True"
      "chunk16 (take_bit 64 (- 2)) 0 = 0xFFFE"
      "countBits 0xFFFE = 15"
      "\<not> isMovImmediateEncodable (take_bit 64 (- 2)) True"
      "isMovzForm (take_bit 64 0) 0"
      "specMovEncodable 0 True"
      "specMovEncodable (- 1) True"
      "\<not> isMovImmediateEncodable (- 2) True"
      "\<not> isMovImmediateEncodable 0 True"
      "\<not> isMovImmediateEncodable (- 1) True"
    by code_simp+
  have e: "executeMov s (movImm (X 0) (- 2)) = Inl MovNotEncodable"
      "executeMov s (movImm (X 0) 0) = Inl MovNotEncodable"
      "executeMov s (movImm (X 0) (- 1)) = Inl MovNotEncodable"
    using v(10,11,12) by (simp_all add: executeMov_immediate x)
  from v e show ?thesis by simp
qed

section \<open>Pass 2 and labelled instruction lines\<close>

text \<open>For comparison, the same two instructions with the label on a line of its own: Pass 2
  emits both, at the addresses 0 and 4 that Pass 1 counted.\<close>

lemma label_on_own_line_kept:
  "buildSymbolTable directiveSize [''main:'', ''ret'', ''ret'']
     = Inr ([(''main'', \<lparr>saddress = 0, ssection = ''text'', isGlobal = False\<rparr>)],
            initialCounters\<lparr>cText := 8\<rparr>)"
  "parseProgram operands directiveData [''main:'', ''ret'', ''ret'']
       [(''main'', \<lparr>saddress = 0, ssection = ''text'', isGlobal = False\<rparr>)]
     = Inr ([\<lparr>original = ''ret'', address = 0, iparsed = noOperands ''ret'' ''ret''\<rparr>,
             \<lparr>original = ''ret'', address = 4, iparsed = noOperands ''ret'' ''ret''\<rparr>], [])"
  by code_simp+

text \<open>
  Claim C8 at the failing input: the source lines \<open>main: ret\<close> and \<open>ret\<close>. Pass 1 counts
  both as instruction lines of the text section: the label \<open>main\<close> and the first line get
  address 0, the second line address 4, and the final counter is 8. Pass 2 hands the whole
  first line, label included, to \<open>parseInstruction\<close>, which takes \<open>main:\<close> for an unknown
  opcode; no entry is emitted for that line, and the entry of the second line carries
  address 0 instead of 4.
\<close>

theorem labelled_instruction_line_emits_no_entry:
  "buildSymbolTable directiveSize [''main: ret'']
     = Inr ([(''main'', \<lparr>saddress = 0, ssection = ''text'', isGlobal = False\<rparr>)],
            initialCounters\<lparr>cText := 4\<rparr>)
   \<and> buildSymbolTable directiveSize [''main: ret'', ''ret'']
     = Inr ([(''main'', \<lparr>saddress = 0, ssection = ''text'', isGlobal = False\<rparr>)],
            initialCounters\<lparr>cText := 8\<rparr>)
   \<and> parseInstruction operands ''main: ret'' = Inr None
   \<and> parseProgram operands directiveData [''main: ret'', ''ret'']
         [(''main'', \<lparr>saddress = 0, ssection = ''text'', isGlobal = False\<rparr>)]
     = Inr ([\<lparr>original = ''ret'', address = 0, iparsed = noOperands ''ret'' ''ret''\<rparr>], [])"
  by code_simp


end
